theory Spec2Isabelle
  imports Complex_Main
begin

section \<open>Eviction Platformer: the simulation step of game.js\<close>

text \<open>
  The development embeds the simulation core of \<^verbatim>\<open>src/game.js\<close>: the constants, the game
  state, the key handler, the spawners, \<^verbatim>\<open>rectIntersect\<close> and \<^verbatim>\<open>update\<close>.

  Numbers. JavaScript numbers are modelled as \<^typ>\<open>real\<close> (positions, velocities, timers) and
  as \<^typ>\<open>int\<close> (the counters \<^verbatim>\<open>lives\<close> and \<^verbatim>\<open>score\<close>, which only ever change by whole
  steps). The properties below are about comparisons, control flow and counters; none of
  them depends on rounding.

  Names. The fields \<^verbatim>\<open>x\<close> and \<^verbatim>\<open>y\<close> of the source objects are called \<open>heroX\<close>, \<open>heroY\<close>
  (hero) and \<open>objX\<close>, \<open>objY\<close> (enemies, envelopes, letters), since a record field is a
  constant of the theory and \<open>x\<close>, \<open>y\<close> must stay usable as variables.

  Outside of the model: drawing, asset loading and \<^verbatim>\<open>updateUI\<close> (which copies score and lives
  to the page and changes no game state), the \<^verbatim>\<open>keys\<close> table (written by the key handlers,
  never read) and \<^verbatim>\<open>lastTime\<close> (used by \<^verbatim>\<open>gameLoop\<close> to compute \<^verbatim>\<open>dt\<close>).
\<close>

subsection \<open>Constants\<close>

definition GRAVITY :: real where "GRAVITY = 1 / 2"
definition JUMP_VELOCITY :: real where "JUMP_VELOCITY = - 12"
definition WORLD_SPEED :: real where "WORLD_SPEED = 3"
definition GROUND_HEIGHT :: real where "GROUND_HEIGHT = 80"
definition HERO_SIZE :: real where "HERO_SIZE = 80"
definition ENEMY_SIZE :: real where "ENEMY_SIZE = 80"
definition ITEM_SIZE :: real where "ITEM_SIZE = 50"
definition LETTER_SIZE :: real where "LETTER_SIZE = 20"
definition ENEMY_SPAWN_BASE :: real where "ENEMY_SPAWN_BASE = 3500"
definition ENVELOPE_SPAWN_BASE :: real where "ENVELOPE_SPAWN_BASE = 2500"

subsection \<open>State\<close>

text \<open>
  The canvas element lives in the page, not in game.js; its size is a parameter of the
  model (\<^verbatim>\<open>canvas.width\<close>, \<^verbatim>\<open>canvas.height\<close>).
\<close>

record canvas =
  canvasWidth :: real
  canvasHeight :: real

record hero =
  worldX :: real
  heroX :: real
  heroY :: real
  vy :: real
  onGround :: bool
  frameIndex :: nat
  frameTimer :: real
  lives :: int
  score :: int

text \<open>Enemies and envelopes are \<open>{x, y, width, height}\<close>; a letter has a \<open>speed\<close> as well.\<close>

record entity =
  objX :: real
  objY :: real
  width :: real
  height :: real

record letter = entity +
  speed :: real

record game =
  hero :: hero
  cameraX :: real
  gameOver :: bool
  enemies :: "entity list"
  envelopes :: "entity list"
  letters :: "letter list"
  enemySpawnTimer :: real
  envelopeSpawnTimer :: real

text \<open>The module-level initial values (lines 95--121).\<close>

definition initial :: "canvas \<Rightarrow> game" where
  "initial cv =
     \<lparr> hero = \<lparr> worldX = 0, heroX = 100,
                heroY = canvasHeight cv - GROUND_HEIGHT - HERO_SIZE,
                vy = 0, onGround = True, frameIndex = 0, frameTimer = 0,
                lives = 3, score = 0 \<rparr>,
       cameraX = 0, gameOver = False,
       enemies = [], envelopes = [], letters = [],
       enemySpawnTimer = 0, envelopeSpawnTimer = 0 \<rparr>"

text \<open>
  \<^verbatim>\<open>Math.random()\<close>. A tick calls it at up to five places. The record holds the value each
  call site receives in one tick when it is reached; every value lies in \<open>[0, 1)\<close>.
\<close>

record draws =
  enemyJitter :: real
  enemyOffset :: real
  envelopeJitter :: real
  envelopeOffsetX :: real
  envelopeOffsetY :: real

definition unit_draw :: "real \<Rightarrow> bool" where
  "unit_draw r = (0 \<le> r \<and> r < 1)"

definition draws_ok :: "draws \<Rightarrow> bool" where
  "draws_ok r =
     (unit_draw (enemyJitter r) \<and> unit_draw (enemyOffset r) \<and> unit_draw (envelopeJitter r)
      \<and> unit_draw (envelopeOffsetX r) \<and> unit_draw (envelopeOffsetY r))"

subsection \<open>Array removal\<close>

text \<open>\<^verbatim>\<open>xs.splice(i, 1)\<close>: removes the element at index \<open>i\<close> (nothing when \<open>i\<close> is past the end).\<close>

definition splice :: "nat \<Rightarrow> 'a list \<Rightarrow> 'a list" where
  "splice i xs = take i xs @ drop (Suc i) xs"

subsection \<open>Input and spawning\<close>

definition shootLetter :: "game \<Rightarrow> game" where
  "shootLetter s =
     s\<lparr> letters := letters s @
          [\<lparr> objX = worldX (hero s) + HERO_SIZE + 10,
             objY = heroY (hero s) + HERO_SIZE / 2 - LETTER_SIZE / 2,
             width = LETTER_SIZE, height = LETTER_SIZE, speed = 8 \<rparr>] \<rparr>"

text \<open>The keydown listener (lines 125--138), for the key code \<open>code\<close>.\<close>

definition keydown :: "string \<Rightarrow> game \<Rightarrow> game" where
  "keydown code s =
     (let s1 = (if \<not> gameOver s \<and> (code = ''Space'' \<or> code = ''ArrowUp'')
                then (if onGround (hero s)
                      then s\<lparr> hero := (hero s)\<lparr> vy := JUMP_VELOCITY, onGround := False \<rparr> \<rparr>
                      else s)
                else s)
      in if \<not> gameOver s1 \<and> code = ''KeyE'' then shootLetter s1 else s1)"

text \<open>\<^verbatim>\<open>spawnEnemy\<close> and \<^verbatim>\<open>spawnEnvelope\<close>; the arguments \<open>r\<close>, \<open>rx\<close>, \<open>ry\<close> are the random draws.\<close>

definition spawnEnemy :: "canvas \<Rightarrow> real \<Rightarrow> game \<Rightarrow> game" where
  "spawnEnemy cv r s =
     (let spawnX = cameraX s + canvasWidth cv + r * 600
      in s\<lparr> enemies := enemies s @
            [\<lparr> objX = spawnX, objY = canvasHeight cv - GROUND_HEIGHT - ENEMY_SIZE,
               width = ENEMY_SIZE, height = ENEMY_SIZE \<rparr>] \<rparr>)"

definition spawnEnvelope :: "canvas \<Rightarrow> real \<Rightarrow> real \<Rightarrow> game \<Rightarrow> game" where
  "spawnEnvelope cv rx ry s =
     (let spawnX = cameraX s + canvasWidth cv + rx * 400
      in s\<lparr> envelopes := envelopes s @
            [\<lparr> objX = spawnX, objY = canvasHeight cv - GROUND_HEIGHT - ITEM_SIZE - ry * 120,
               width = ITEM_SIZE, height = ITEM_SIZE \<rparr>] \<rparr>)"

subsection \<open>Geometry\<close>

definition rectIntersect ::
  "real \<Rightarrow> real \<Rightarrow> real \<Rightarrow> real \<Rightarrow> real \<Rightarrow> real \<Rightarrow> real \<Rightarrow> real \<Rightarrow> bool" where
  "rectIntersect aX aY aW aH bX bY bW bH =
     (aX < bX + bW \<and> aX + aW > bX \<and> aY < bY + bH \<and> aY + aH > bY)"

subsection \<open>The simulation step\<close>

text \<open>Lines 190--192: camera and hero world position.\<close>

definition scroll :: "game \<Rightarrow> game" where
  "scroll s =
     s\<lparr> cameraX := cameraX s + WORLD_SPEED,
        hero := (hero s)\<lparr> worldX := worldX (hero s) + WORLD_SPEED \<rparr> \<rparr>"

text \<open>Lines 194--202: vertical physics.\<close>

definition physics :: "canvas \<Rightarrow> game \<Rightarrow> game" where
  "physics cv s =
     (let h1 = (hero s)\<lparr> vy := vy (hero s) + GRAVITY \<rparr>;
          h2 = h1\<lparr> heroY := heroY h1 + vy h1 \<rparr>;
          groundY = canvasHeight cv - GROUND_HEIGHT - HERO_SIZE
      in if heroY h2 > groundY
         then s\<lparr> hero := h2\<lparr> heroY := groundY, vy := 0, onGround := True \<rparr> \<rparr>
         else s\<lparr> hero := h2 \<rparr>)"

text \<open>Lines 204--209: run animation.\<close>

definition animate :: "real \<Rightarrow> game \<Rightarrow> game" where
  "animate dt s =
     (let h1 = (hero s)\<lparr> frameTimer := frameTimer (hero s) + dt \<rparr>
      in if frameTimer h1 > 15 / 100
         then s\<lparr> hero := h1\<lparr> frameTimer := 0, frameIndex := (frameIndex h1 + 1) mod 2 \<rparr> \<rparr>
         else s\<lparr> hero := h1 \<rparr>)"

text \<open>Lines 211--216 and 218--223: the two spawn channels.\<close>

definition spawnEnemies :: "canvas \<Rightarrow> real \<Rightarrow> draws \<Rightarrow> game \<Rightarrow> game" where
  "spawnEnemies cv dt r s =
     (let s1 = s\<lparr> enemySpawnTimer := enemySpawnTimer s + dt * 1000 \<rparr>
      in if enemySpawnTimer s1 > ENEMY_SPAWN_BASE + enemyJitter r * 1000
         then spawnEnemy cv (enemyOffset r) (s1\<lparr> enemySpawnTimer := 0 \<rparr>)
         else s1)"

definition spawnEnvelopes :: "canvas \<Rightarrow> real \<Rightarrow> draws \<Rightarrow> game \<Rightarrow> game" where
  "spawnEnvelopes cv dt r s =
     (let s1 = s\<lparr> envelopeSpawnTimer := envelopeSpawnTimer s + dt * 1000 \<rparr>
      in if envelopeSpawnTimer s1 > ENVELOPE_SPAWN_BASE + envelopeJitter r * 800
         then spawnEnvelope cv (envelopeOffsetX r) (envelopeOffsetY r)
                (s1\<lparr> envelopeSpawnTimer := 0 \<rparr>)
         else s1)"

text \<open>
  Lines 245--257: the inner loop over the letters, for the enemy at index \<open>i\<close>. The loop
  index runs downwards; \<open>lettersLoop (Suc j)\<close> is the iteration at index \<open>j\<close>, and the
  \<^verbatim>\<open>break\<close> is the branch without a recursive call.
\<close>

fun lettersLoop :: "nat \<Rightarrow> nat \<Rightarrow> entity \<Rightarrow> game \<Rightarrow> game" where
  "lettersLoop 0 i enemy s = s"
| "lettersLoop (Suc j) i enemy s =
     (let letter = letters s ! j;
          letterScreenX = objX letter - cameraX s;
          enemyScreenX = objX enemy - cameraX s
      in if rectIntersect letterScreenX (objY letter) (width letter) (height letter)
              enemyScreenX (objY enemy) (width enemy) (height enemy)
         then s\<lparr> enemies := splice i (enemies s),
                 letters := splice j (letters s),
                 hero := (hero s)\<lparr> score := score (hero s) + 20 \<rparr> \<rparr>
         else lettersLoop j i enemy s)"

text \<open>
  Lines 227--257: the body of the loop over the enemies, at index \<open>i\<close>. Each of the three
  outer loops starts at the last index and an iteration removes at most the element at its
  own index, so every read \<open>xs ! i\<close> below is a read inside the array (lemmas
  \<open>enemyBody_length\<close>, \<open>envelopeBody_length\<close> and \<open>letterBody_length\<close>); the JavaScript
  never reads \<^verbatim>\<open>undefined\<close> there.
\<close>

definition enemyBody :: "nat \<Rightarrow> game \<Rightarrow> game" where
  "enemyBody i s =
     (let enemy = enemies s ! i
      in if objX enemy - cameraX s + width enemy < 0
         then s\<lparr> enemies := splice i (enemies s) \<rparr>
         else
           let enemyScreenX = objX enemy - cameraX s
           in if rectIntersect (heroX (hero s)) (heroY (hero s)) HERO_SIZE HERO_SIZE
                   enemyScreenX (objY enemy) (width enemy) (height enemy)
              then
                let s1 = s\<lparr> enemies := splice i (enemies s),
                            hero := (hero s)\<lparr> lives := lives (hero s) - 1 \<rparr> \<rparr>
                in if lives (hero s1) \<le> 0 then s1\<lparr> gameOver := True \<rparr> else s1
              else lettersLoop (length (letters s)) i enemy s)"

fun enemiesLoop :: "nat \<Rightarrow> game \<Rightarrow> game" where
  "enemiesLoop 0 s = s"
| "enemiesLoop (Suc i) s = enemiesLoop i (enemyBody i s)"

text \<open>Lines 260--273: the envelopes.\<close>

definition envelopeBody :: "nat \<Rightarrow> game \<Rightarrow> game" where
  "envelopeBody i s =
     (let env = envelopes s ! i
      in if objX env - cameraX s + width env < 0
         then s\<lparr> envelopes := splice i (envelopes s) \<rparr>
         else
           let envScreenX = objX env - cameraX s
           in if rectIntersect (heroX (hero s)) (heroY (hero s)) HERO_SIZE HERO_SIZE
                   envScreenX (objY env) (width env) (height env)
              then s\<lparr> envelopes := splice i (envelopes s),
                      hero := (hero s)\<lparr> score := score (hero s) + 10 \<rparr> \<rparr>
              else s)"

fun envelopesLoop :: "nat \<Rightarrow> game \<Rightarrow> game" where
  "envelopesLoop 0 s = s"
| "envelopesLoop (Suc i) s = envelopesLoop i (envelopeBody i s)"

text \<open>Lines 275--283: the letters move and leave the screen.\<close>

definition letterBody :: "canvas \<Rightarrow> nat \<Rightarrow> game \<Rightarrow> game" where
  "letterBody cv i s =
     (let letter = letters s ! i;
          letter1 = letter\<lparr> objX := objX letter + speed letter \<rparr>;
          s1 = s\<lparr> letters := (letters s)[i := letter1] \<rparr>
      in if objX letter1 - cameraX s1 > canvasWidth cv + 50
         then s1\<lparr> letters := splice i (letters s1) \<rparr>
         else s1)"

fun moveLettersLoop :: "canvas \<Rightarrow> nat \<Rightarrow> game \<Rightarrow> game" where
  "moveLettersLoop cv 0 s = s"
| "moveLettersLoop cv (Suc i) s = moveLettersLoop cv i (letterBody cv i s)"

text \<open>\<^verbatim>\<open>update(dt)\<close>, with the draws \<open>r\<close> of this tick.\<close>

definition update :: "canvas \<Rightarrow> real \<Rightarrow> draws \<Rightarrow> game \<Rightarrow> game" where
  "update cv dt r s =
     (if gameOver s then s
      else
        let s1 = scroll s;
            s2 = physics cv s1;
            s3 = animate dt s2;
            s4 = spawnEnemies cv dt r s3;
            s5 = spawnEnvelopes cv dt r s4;
            s6 = enemiesLoop (length (enemies s5)) s5;
            s7 = envelopesLoop (length (envelopes s6)) s6
        in moveLettersLoop cv (length (letters s7)) s7)"

subsection \<open>Runs\<close>

text \<open>
  What happens to the game between page load and any later moment: animation frames
  (\<^verbatim>\<open>update(dt)\<close>) and key presses, in some order.
\<close>

datatype event = Tick real draws | KeyDown string

fun step :: "canvas \<Rightarrow> game \<Rightarrow> event \<Rightarrow> game" where
  "step cv s (Tick dt r) = update cv dt r s"
| "step cv s (KeyDown code) = keydown code s"

definition run :: "canvas \<Rightarrow> event list \<Rightarrow> game \<Rightarrow> game" where
  "run cv evs s = foldl (step cv) s evs"

text \<open>
  Events the page can deliver: elapsed time is not negative, and every random draw lies in
  \<open>[0, 1)\<close>.
\<close>

fun plausible :: "event \<Rightarrow> bool" where
  "plausible (Tick dt r) = (0 \<le> dt \<and> draws_ok r)"
| "plausible (KeyDown code) = True"

subsection \<open>Notions used in the statements\<close>


text \<open>The part of the state that describes the camera and the hero's motion.\<close>

definition motion :: "game \<Rightarrow> real \<times> real \<times> real \<times> real \<times> real \<times> bool" where
  "motion s =
     (cameraX s, worldX (hero s), heroX (hero s), heroY (hero s), vy (hero s),
      onGround (hero s))"

text \<open>The clocks of the game: the two spawn accumulators and the animation timer and phase.\<close>

definition clocks :: "game \<Rightarrow> real \<times> real \<times> real \<times> nat" where
  "clocks s =
     (enemySpawnTimer s, envelopeSpawnTimer s, frameTimer (hero s), frameIndex (hero s))"

text \<open>The state with its clocks erased: what is left is everything else.\<close>

definition untimed :: "game \<Rightarrow> game" where
  "untimed s =
     s\<lparr> hero := (hero s)\<lparr> frameIndex := 0, frameTimer := 0 \<rparr>,
        enemySpawnTimer := 0, envelopeSpawnTimer := 0 \<rparr>"

text \<open>
  The two halves of a tick of \<open>update\<close>: the state when line 224 is reached (camera, physics,
  animation and the two spawn channels are done), and the three entity loops that follow.
\<close>

definition afterSpawn :: "canvas \<Rightarrow> real \<Rightarrow> draws \<Rightarrow> game \<Rightarrow> game" where
  "afterSpawn cv dt r s =
     spawnEnvelopes cv dt r (spawnEnemies cv dt r (animate dt (physics cv (scroll s))))"

definition collisions :: "canvas \<Rightarrow> game \<Rightarrow> game" where
  "collisions cv s =
     (let s6 = enemiesLoop (length (enemies s)) s;
          s7 = envelopesLoop (length (envelopes s6)) s6
      in moveLettersLoop cv (length (letters s7)) s7)"

text \<open>
  A tick in which neither channel spawns, as it acts on a state without clocks: camera,
  physics and the three entity loops.
\<close>

definition glide :: "canvas \<Rightarrow> game \<Rightarrow> game" where
  "glide cv t = (if gameOver t then t else collisions cv (physics cv (scroll t)))"

text \<open>
  Vocabulary for the entity loops. An enemy or envelope is \<open>offscreen\<close> when it has left the
  screen on the left (the test of lines 229 and 263); it \<open>touchesHero\<close> when the overlap test
  of lines 235 and 268 succeeds. \<open>hx\<close>, \<open>hy\<close> are the hero's screen position and \<open>c\<close> is the
  camera offset.
\<close>

definition offscreen :: "real \<Rightarrow> entity \<Rightarrow> bool" where
  "offscreen c e = (objX e - c + width e < 0)"

definition touchesHero :: "real \<Rightarrow> real \<Rightarrow> real \<Rightarrow> entity \<Rightarrow> bool" where
  "touchesHero hx hy c e =
     rectIntersect hx hy HERO_SIZE HERO_SIZE (objX e - c) (objY e) (width e) (height e)"

definition strikes :: "real \<Rightarrow> real \<Rightarrow> real \<Rightarrow> entity \<Rightarrow> bool" where
  "strikes hx hy c e = (\<not> offscreen c e \<and> touchesHero hx hy c e)"

definition stays :: "real \<Rightarrow> real \<Rightarrow> real \<Rightarrow> entity \<Rightarrow> bool" where
  "stays hx hy c e = (\<not> offscreen c e \<and> \<not> touchesHero hx hy c e)"

text \<open>A letter after its move of line 278, and the test of line 280 that keeps it.\<close>

definition advance :: "letter \<Rightarrow> letter" where
  "advance l = l\<lparr> objX := objX l + speed l \<rparr>"

definition in_flight :: "canvas \<Rightarrow> real \<Rightarrow> letter \<Rightarrow> bool" where
  "in_flight cv c l = (\<not> canvasWidth cv + 50 < objX l - c)"

text \<open>The overlap test of line 249 between a letter and an enemy.\<close>

definition letterHits :: "real \<Rightarrow> letter \<Rightarrow> entity \<Rightarrow> bool" where
  "letterHits c l e =
     rectIntersect (objX l - c) (objY l) (width l) (height l)
       (objX e - c) (objY e) (width e) (height e)"

subsection \<open>Sample inputs\<close>

text \<open>
  A canvas of 800 by 450 pixels, and draws of \<^verbatim>\<open>Math.random()\<close> for one tick: no jitter, no
  forward offset, and envelopes placed 90 pixels above their lowest position.
\<close>

definition demo_canvas :: canvas where
  "demo_canvas = \<lparr> canvasWidth = 800, canvasHeight = 450 \<rparr>"

definition steady_draws :: draws where
  "steady_draws =
     \<lparr> enemyJitter = 0, enemyOffset = 0, envelopeJitter = 0, envelopeOffsetX = 0,
       envelopeOffsetY = 3 / 4 \<rparr>"

subsection \<open>Sample runs\<close>

text \<open>
  Families of states on the demo canvas, without clocks: the hero in the air over an empty
  street, and the hero on the ground (at height 290) with three lives, no score, and given
  enemies, envelopes and letters.
\<close>

definition airborne :: "real \<Rightarrow> real \<Rightarrow> real \<Rightarrow> game" where
  "airborne c y v =
     \<lparr> hero = \<lparr> worldX = c, heroX = 100, heroY = y, vy = v, onGround = False,
                frameIndex = 0, frameTimer = 0, lives = 3, score = 0 \<rparr>,
       cameraX = c, gameOver = False, enemies = [], envelopes = [], letters = [],
       enemySpawnTimer = 0, envelopeSpawnTimer = 0 \<rparr>"

definition grounded :: "real \<Rightarrow> entity list \<Rightarrow> entity list \<Rightarrow> letter list \<Rightarrow> game" where
  "grounded c es vs ls =
     \<lparr> hero = \<lparr> worldX = c, heroX = 100, heroY = 290, vy = 0, onGround = True,
                frameIndex = 0, frameTimer = 0, lives = 3, score = 0 \<rparr>,
       cameraX = c, gameOver = False, enemies = es, envelopes = vs, letters = ls,
       enemySpawnTimer = 0, envelopeSpawnTimer = 0 \<rparr>"

text \<open>An enemy on the ground, an envelope 90 pixels up, and a letter thrown from the ground.\<close>

definition tenant :: "real \<Rightarrow> entity" where
  "tenant x = \<lparr> objX = x, objY = 290, width = 80, height = 80 \<rparr>"

definition notice :: "real \<Rightarrow> entity" where
  "notice x = \<lparr> objX = x, objY = 230, width = 50, height = 50 \<rparr>"

definition thrown :: "real \<Rightarrow> letter" where
  "thrown x = \<lparr> objX = x, objY = 320, width = 20, height = 20, speed = 8 \<rparr>"

text \<open>Draws that place the next enemy \<open>off * 600\<close> pixels past the right edge.\<close>

definition cluster_draws :: "real \<Rightarrow> draws" where
  "cluster_draws off = steady_draws\<lparr> enemyOffset := off \<rparr>"

text \<open>
  Three runs from page load. The first frame has \<open>dt = 0\<close> (\<^verbatim>\<open>lastTime\<close> is set to its own
  timestamp); later frames come every 16 ms or every 7 ms, or after a stall of 5 s.

  A jump, followed by 46 frames.
\<close>

definition descent_events :: "event list" where
  "descent_events =
     Tick 0 steady_draws # KeyDown ''Space'' # replicate 46 (Tick (16 / 1000) steady_draws)"

definition descent_state :: game where
  "descent_state = run demo_canvas descent_events (initial demo_canvas)"

text \<open>A letter is thrown, followed by 143 frames.\<close>

definition overshoot_events :: "event list" where
  "overshoot_events =
     Tick 0 steady_draws # KeyDown ''KeyE'' # replicate 143 (Tick (16 / 1000) steady_draws)"

definition overshoot_state :: game where
  "overshoot_state = run demo_canvas overshoot_events (initial demo_canvas)"

text \<open>
  Four stalled frames spawn four enemies (and four envelopes); the random offsets put the
  four enemies within two pixels of each other (between 813.6875 and 815.375). 206 frames
  later the nearest is less than a pixel right of the hero. All positions are binary
  fractions, so the run is the same in double precision.
\<close>

definition pileup_events :: "event list" where
  "pileup_events =
     [Tick 0 steady_draws, Tick 5 (cluster_draws (1 / 64)), Tick 5 (cluster_draws (1 / 128)),
      Tick 5 (cluster_draws (1 / 256)), Tick 5 (cluster_draws 0)]
     @ replicate 206 (Tick (7 / 1000) steady_draws)"

definition pileup_state :: game where
  "pileup_state = run demo_canvas pileup_events (initial demo_canvas)"

definition pileup_spawned :: game where
  "pileup_spawned =
     run demo_canvas
       [Tick 0 steady_draws, Tick 5 (cluster_draws (1 / 64)), Tick 5 (cluster_draws (1 / 128)),
        Tick 5 (cluster_draws (1 / 256)), Tick 5 (cluster_draws 0)]
       (initial demo_canvas)"

text \<open>One frame later the four enemies have reached the hero, and the game has ended.\<close>

definition defeated_game :: game where
  "defeated_game =
     run demo_canvas (pileup_events @ [Tick (7 / 1000) steady_draws]) (initial demo_canvas)"

text \<open>
  What the code keeps in its three lists after a tick: enemies and envelopes that have not
  left the screen on the left, and letters not more than 50 pixels past the right edge.
\<close>

definition in_play :: "canvas \<Rightarrow> game \<Rightarrow> bool" where
  "in_play cv s =
     (list_all (\<lambda>e. \<not> offscreen (cameraX s) e) (enemies s)
      \<and> list_all (\<lambda>e. \<not> offscreen (cameraX s) e) (envelopes s)
      \<and> list_all (in_flight cv (cameraX s)) (letters s))"

text \<open>
  Two enemies, no longer near the hero, that both overlap one letter; and an enemy that
  overlaps the hero and a letter at once.
\<close>

definition crossfire :: game where
  "crossfire = grounded 0 [tenant 290, tenant 310] [] [thrown 300]"


section \<open>Basic facts about the loops\<close>

lemmas constants =
  GRAVITY_def JUMP_VELOCITY_def WORLD_SPEED_def GROUND_HEIGHT_def HERO_SIZE_def
  ENEMY_SIZE_def ITEM_SIZE_def LETTER_SIZE_def ENEMY_SPAWN_BASE_def ENVELOPE_SPAWN_BASE_def

text \<open>
  The inner loop either finds no letter and changes nothing, or stops at the first
  overlapping letter (from the end), removing that letter and the enemy.
\<close>

lemma lettersLoop_cases:
  "lettersLoop j i enemy s = s \<or>
   (\<exists>k<j. lettersLoop j i enemy s =
      s\<lparr> enemies := splice i (enemies s), letters := splice k (letters s),
         hero := (hero s)\<lparr> score := score (hero s) + 20 \<rparr> \<rparr>)"
proof (induction j)
  case 0
  show ?case by simp
next
  case (Suc j)
  show ?case
  proof (cases "rectIntersect (objX (letters s ! j) - cameraX s) (objY (letters s ! j))
            (width (letters s ! j)) (height (letters s ! j))
            (objX enemy - cameraX s) (objY enemy) (width enemy) (height enemy)")
    case True
    then show ?thesis by (auto simp: Let_def)
  next
    case False
    with Suc show ?thesis by (auto simp: Let_def less_Suc_eq)
  qed
qed

subsection \<open>The collision loops leave camera and hero motion alone\<close>

lemma motion_lettersLoop: "motion (lettersLoop j i enemy s) = motion s"
  using lettersLoop_cases [of j i enemy s] by (auto simp: motion_def)

lemma motion_enemyBody: "motion (enemyBody i s) = motion s"
  using motion_lettersLoop [of "length (letters s)" i "enemies s ! i" s]
  by (simp add: enemyBody_def Let_def motion_def)

lemma motion_enemiesLoop: "motion (enemiesLoop i s) = motion s"
  by (induction i arbitrary: s) (simp_all add: motion_enemyBody)

lemma motion_envelopeBody: "motion (envelopeBody i s) = motion s"
  by (simp add: envelopeBody_def Let_def motion_def)

lemma motion_envelopesLoop: "motion (envelopesLoop i s) = motion s"
  by (induction i arbitrary: s) (simp_all add: motion_envelopeBody)

lemma motion_letterBody: "motion (letterBody cv i s) = motion s"
  by (simp add: letterBody_def Let_def motion_def)

lemma motion_moveLettersLoop: "motion (moveLettersLoop cv i s) = motion s"
  by (induction i arbitrary: s) (simp_all add: motion_letterBody)

lemma motion_animate: "motion (animate dt s) = motion s"
  by (simp add: animate_def Let_def motion_def)

lemma motion_spawnEnemies: "motion (spawnEnemies cv dt r s) = motion s"
  by (simp add: spawnEnemies_def spawnEnemy_def Let_def motion_def)

lemma motion_spawnEnvelopes: "motion (spawnEnvelopes cv dt r s) = motion s"
  by (simp add: spawnEnvelopes_def spawnEnvelope_def Let_def motion_def)

lemma motion_update:
  "\<not> gameOver s \<Longrightarrow> motion (update cv dt r s) = motion (physics cv (scroll s))"
  by (simp add: update_def Let_def motion_moveLettersLoop motion_envelopesLoop
      motion_enemiesLoop motion_spawnEnvelopes motion_spawnEnemies motion_animate)

lemma update_phases:
  "\<not> gameOver s \<Longrightarrow> update cv dt r s = collisions cv (afterSpawn cv dt r s)"
  by (simp add: update_def collisions_def afterSpawn_def Let_def)

lemma motion_collisions: "motion (collisions cv s) = motion s"
  by (simp add: collisions_def Let_def motion_moveLettersLoop motion_envelopesLoop
      motion_enemiesLoop)

subsection \<open>The collision loops leave the clocks alone\<close>

lemma clocks_lettersLoop: "clocks (lettersLoop j i enemy s) = clocks s"
  using lettersLoop_cases [of j i enemy s] by (auto simp: clocks_def)

lemma clocks_enemyBody: "clocks (enemyBody i s) = clocks s"
  using clocks_lettersLoop [of "length (letters s)" i "enemies s ! i" s]
  by (simp add: enemyBody_def Let_def clocks_def)

lemma clocks_enemiesLoop: "clocks (enemiesLoop i s) = clocks s"
  by (induction i arbitrary: s) (simp_all add: clocks_enemyBody)

lemma clocks_envelopeBody: "clocks (envelopeBody i s) = clocks s"
  by (simp add: envelopeBody_def Let_def clocks_def)

lemma clocks_envelopesLoop: "clocks (envelopesLoop i s) = clocks s"
  by (induction i arbitrary: s) (simp_all add: clocks_envelopeBody)

lemma clocks_letterBody: "clocks (letterBody cv i s) = clocks s"
  by (simp add: letterBody_def Let_def clocks_def)

lemma clocks_moveLettersLoop: "clocks (moveLettersLoop cv i s) = clocks s"
  by (induction i arbitrary: s) (simp_all add: clocks_letterBody)

lemma clocks_collisions: "clocks (collisions cv s) = clocks s"
  by (simp add: collisions_def Let_def clocks_moveLettersLoop clocks_envelopesLoop
      clocks_enemiesLoop)

subsection \<open>Erasing the clocks commutes with the collision loops\<close>

lemma untimed_lettersLoop:
  "untimed (lettersLoop j i enemy s) = lettersLoop j i enemy (untimed s)"
  by (induction j) (simp_all add: untimed_def Let_def)

lemma untimed_enemyBody: "untimed (enemyBody i s) = enemyBody i (untimed s)"
proof -
  have "untimed (lettersLoop (length (letters s)) i (enemies s ! i) s)
      = lettersLoop (length (letters (untimed s))) i (enemies (untimed s) ! i) (untimed s)"
    by (simp add: untimed_lettersLoop) (simp add: untimed_def)
  then show ?thesis
    unfolding enemyBody_def [of i s] enemyBody_def [of i "untimed s"]
    by (simp add: Let_def) (simp add: untimed_def)
qed

lemma untimed_enemiesLoop: "untimed (enemiesLoop i s) = enemiesLoop i (untimed s)"
  by (induction i arbitrary: s) (simp_all add: untimed_enemyBody)

lemma untimed_envelopeBody: "untimed (envelopeBody i s) = envelopeBody i (untimed s)"
  by (simp add: envelopeBody_def Let_def untimed_def)

lemma untimed_envelopesLoop: "untimed (envelopesLoop i s) = envelopesLoop i (untimed s)"
  by (induction i arbitrary: s) (simp_all add: untimed_envelopeBody)

lemma untimed_letterBody: "untimed (letterBody cv i s) = letterBody cv i (untimed s)"
  by (simp add: letterBody_def Let_def untimed_def)

lemma untimed_moveLettersLoop:
  "untimed (moveLettersLoop cv i s) = moveLettersLoop cv i (untimed s)"
  by (induction i arbitrary: s) (simp_all add: untimed_letterBody)

lemma untimed_lists:
  "enemies (untimed s) = enemies s" "envelopes (untimed s) = envelopes s"
  "letters (untimed s) = letters s"
  by (simp_all add: untimed_def)

lemma untimed_collisions: "untimed (collisions cv s) = collisions cv (untimed s)"
proof -
  have e: "enemies (untimed s) = enemies s" by (simp add: untimed_def)
  have v: "envelopes (enemiesLoop n (untimed s)) = envelopes (enemiesLoop n s)" for n
    using untimed_lists(2) [of "enemiesLoop n s"] by (simp add: untimed_enemiesLoop)
  have l: "letters (envelopesLoop m (enemiesLoop n (untimed s)))
         = letters (envelopesLoop m (enemiesLoop n s))" for m n
    using untimed_lists(3) [of "envelopesLoop m (enemiesLoop n s)"]
    by (simp add: untimed_enemiesLoop untimed_envelopesLoop)
  show ?thesis
    by (simp add: collisions_def Let_def untimed_moveLettersLoop untimed_envelopesLoop
        untimed_enemiesLoop e v l)
qed

subsection \<open>The first half of a tick\<close>

lemma untimed_animate: "untimed (animate dt s) = untimed s"
  by (simp add: animate_def Let_def untimed_def)

lemma untimed_spawnEnemies:
  "untimed (spawnEnemies cv dt r s) =
     (if ENEMY_SPAWN_BASE + enemyJitter r * 1000 < enemySpawnTimer s + dt * 1000
      then spawnEnemy cv (enemyOffset r) (untimed s) else untimed s)"
  by (simp add: spawnEnemies_def spawnEnemy_def Let_def untimed_def)

lemma untimed_spawnEnvelopes:
  "untimed (spawnEnvelopes cv dt r s) =
     (if ENVELOPE_SPAWN_BASE + envelopeJitter r * 800 < envelopeSpawnTimer s + dt * 1000
      then spawnEnvelope cv (envelopeOffsetX r) (envelopeOffsetY r) (untimed s) else untimed s)"
  by (simp add: spawnEnvelopes_def spawnEnvelope_def Let_def untimed_def)

lemma clocks_scroll: "clocks (scroll s) = clocks s"
  by (simp add: scroll_def clocks_def)

lemma clocks_physics: "clocks (physics cv s) = clocks s"
  by (simp add: physics_def clocks_def Let_def)

lemma envelopeSpawnTimer_spawnEnemies:
  "envelopeSpawnTimer (spawnEnemies cv dt r s) = envelopeSpawnTimer s"
  by (simp add: spawnEnemies_def spawnEnemy_def Let_def)

lemma spawnTimers_animate:
  "enemySpawnTimer (animate dt s) = enemySpawnTimer s"
  "envelopeSpawnTimer (animate dt s) = envelopeSpawnTimer s"
  by (simp_all add: animate_def Let_def)

lemma spawnTimers_before:
  "enemySpawnTimer (animate dt (physics cv (scroll s))) = enemySpawnTimer s"
  "envelopeSpawnTimer (spawnEnemies cv dt r (animate dt (physics cv (scroll s))))
     = envelopeSpawnTimer s"
  using clocks_physics [of cv "scroll s"] clocks_scroll [of s]
  by (simp_all add: envelopeSpawnTimer_spawnEnemies spawnTimers_animate clocks_def)

lemma untimed_afterSpawn:
  "untimed (afterSpawn cv dt r s) =
     (let s2 = untimed (physics cv (scroll s));
          s4 = (if ENEMY_SPAWN_BASE + enemyJitter r * 1000 < enemySpawnTimer s + dt * 1000
                then spawnEnemy cv (enemyOffset r) s2 else s2)
      in if ENVELOPE_SPAWN_BASE + envelopeJitter r * 800 < envelopeSpawnTimer s + dt * 1000
         then spawnEnvelope cv (envelopeOffsetX r) (envelopeOffsetY r) s4 else s4)"
  by (simp add: afterSpawn_def untimed_spawnEnvelopes untimed_spawnEnemies untimed_animate
      spawnTimers_before Let_def)

subsection \<open>What the envelope loop and the letter loop compute\<close>

lemma take_splice: "i \<le> length xs \<Longrightarrow> take i (splice i xs) = take i xs"
  by (simp add: splice_def)

lemma drop_splice: "i \<le> length xs \<Longrightarrow> drop i (splice i xs) = drop (Suc i) xs"
  by (simp add: splice_def)

lemma length_splice: "i < length xs \<Longrightarrow> length (splice i xs) = length xs - 1"
  by (simp add: splice_def)

lemma splice_update: "i < length xs \<Longrightarrow> splice i (xs[i := v]) = splice i xs"
  by (simp add: splice_def)

lemma moveLettersLoop_filter:
  "i \<le> length (letters s) \<Longrightarrow>
   moveLettersLoop cv i s =
     s\<lparr> letters := filter (in_flight cv (cameraX s)) (map advance (take i (letters s)))
                     @ drop i (letters s) \<rparr>"
proof (induction i arbitrary: s)
  case 0
  show ?case by simp
next
  case (Suc i)
  define ls where "ls = letters s"
  define l1 where "l1 = advance (ls ! i)"
  have i: "i < length ls" using Suc.prems by (simp add: ls_def)
  have body: "letterBody cv i s =
      s\<lparr> letters := (if in_flight cv (cameraX s) l1 then ls[i := l1] else splice i ls) \<rparr>"
    using i by (simp add: letterBody_def Let_def in_flight_def advance_def l1_def ls_def splice_update)
  have tk: "take (Suc i) ls = take i ls @ [ls ! i]"
    using i by (simp add: take_Suc_conv_app_nth)
  have len: "i \<le> length (letters (letterBody cv i s))"
    using i by (auto simp: body length_splice)
  have dr: "drop i (ls[i := v]) = v # drop (Suc i) ls" for v
    using i by (simp add: Cons_nth_drop_Suc [symmetric])
  have "moveLettersLoop cv (Suc i) s = moveLettersLoop cv i (letterBody cv i s)"
    by simp
  also have "\<dots> = (letterBody cv i s)
      \<lparr> letters := filter (in_flight cv (cameraX (letterBody cv i s)))
                         (map advance (take i (letters (letterBody cv i s))))
                     @ drop i (letters (letterBody cv i s)) \<rparr>"
    by (rule Suc.IH [OF len])
  also have "\<dots> = s\<lparr> letters := filter (in_flight cv (cameraX s)) (map advance (take (Suc i) ls))
                     @ drop (Suc i) ls \<rparr>"
    using i by (simp add: body tk dr take_splice drop_splice l1_def)
  finally show ?case by (simp add: ls_def)
qed


lemma envelopeBody_eq:
  "envelopeBody i s =
     (if offscreen (cameraX s) (envelopes s ! i) then s\<lparr> envelopes := splice i (envelopes s) \<rparr>
      else if touchesHero (heroX (hero s)) (heroY (hero s)) (cameraX s) (envelopes s ! i)
      then s\<lparr> envelopes := splice i (envelopes s),
              hero := (hero s)\<lparr> score := score (hero s) + 10 \<rparr> \<rparr>
      else s)"
  by (simp add: envelopeBody_def Let_def offscreen_def touchesHero_def)

lemma envelopesLoop_filter:
  "i \<le> length (envelopes s) \<Longrightarrow>
   envelopesLoop i s =
     s\<lparr> envelopes := filter (stays (heroX (hero s)) (heroY (hero s)) (cameraX s))
                         (take i (envelopes s)) @ drop i (envelopes s),
        hero := (hero s)\<lparr> score := score (hero s) + 10 *
                  int (length (filter (strikes (heroX (hero s)) (heroY (hero s)) (cameraX s))
                         (take i (envelopes s)))) \<rparr> \<rparr>"
proof (induction i arbitrary: s)
  case 0
  show ?case by simp
next
  case (Suc i)
  define vs where "vs = envelopes s"
  define t where "t = envelopeBody i s"
  have i: "i < length vs" using Suc.prems by (simp add: vs_def)
  have tk: "take (Suc i) vs = take i vs @ [vs ! i]"
    using i by (simp add: take_Suc_conv_app_nth)
  have dr: "drop i vs = vs ! i # drop (Suc i) vs"
    using i by (simp add: Cons_nth_drop_Suc)
  have len: "i \<le> length (envelopes t)"
    using i by (auto simp: t_def envelopeBody_eq length_splice vs_def)
  have "envelopesLoop (Suc i) s = envelopesLoop i t"
    by (simp add: t_def)
  also have "\<dots> = t\<lparr> envelopes := filter (stays (heroX (hero t)) (heroY (hero t)) (cameraX t))
                         (take i (envelopes t)) @ drop i (envelopes t),
        hero := (hero t)\<lparr> score := score (hero t) + 10 *
                  int (length (filter (strikes (heroX (hero t)) (heroY (hero t)) (cameraX t))
                         (take i (envelopes t)))) \<rparr> \<rparr>"
    by (rule Suc.IH [OF len])
  also have "\<dots> = s\<lparr> envelopes := filter (stays (heroX (hero s)) (heroY (hero s)) (cameraX s))
                         (take (Suc i) vs) @ drop (Suc i) vs,
        hero := (hero s)\<lparr> score := score (hero s) + 10 *
                  int (length (filter (strikes (heroX (hero s)) (heroY (hero s)) (cameraX s))
                         (take (Suc i) vs))) \<rparr> \<rparr>"
    using i
    by (simp add: t_def envelopeBody_eq vs_def [symmetric] tk take_splice drop_splice
        stays_def strikes_def dr)
  finally show ?case by (simp add: vs_def)
qed

lemma defeat_accumulates:
  "(g \<or> a \<le> 1 \<or> (xs \<noteq> [] \<and> a - 1 \<le> int (length xs))) = (g \<or> a \<le> int (length xs) + 1)"
  by (cases xs) auto

lemma enemyBody_no_letters:
  "letters s = [] \<Longrightarrow>
   enemyBody i s =
     (if offscreen (cameraX s) (enemies s ! i) then s\<lparr> enemies := splice i (enemies s) \<rparr>
      else if touchesHero (heroX (hero s)) (heroY (hero s)) (cameraX s) (enemies s ! i)
      then s\<lparr> enemies := splice i (enemies s),
              hero := (hero s)\<lparr> lives := lives (hero s) - 1 \<rparr>,
              gameOver := gameOver s \<or> lives (hero s) - 1 \<le> 0 \<rparr>
      else s)"
  by (simp add: enemyBody_def Let_def offscreen_def touchesHero_def)

lemma enemiesLoop_no_letters:
  "letters s = [] \<Longrightarrow> i \<le> length (enemies s) \<Longrightarrow>
   enemiesLoop i s =
     s\<lparr> enemies := filter (stays (heroX (hero s)) (heroY (hero s)) (cameraX s))
                       (take i (enemies s)) @ drop i (enemies s),
        hero := (hero s)\<lparr> lives := lives (hero s) -
                  int (length (filter (strikes (heroX (hero s)) (heroY (hero s)) (cameraX s))
                         (take i (enemies s)))) \<rparr>,
        gameOver := gameOver s \<or>
           (filter (strikes (heroX (hero s)) (heroY (hero s)) (cameraX s)) (take i (enemies s)) \<noteq> []
            \<and> lives (hero s) -
                  int (length (filter (strikes (heroX (hero s)) (heroY (hero s)) (cameraX s))
                         (take i (enemies s)))) \<le> 0) \<rparr>"
proof (induction i arbitrary: s)
  case 0
  show ?case by simp
next
  case (Suc i)
  define es where "es = enemies s"
  define t where "t = enemyBody i s"
  have i: "i < length es" using Suc.prems by (simp add: es_def)
  have tk: "take (Suc i) es = take i es @ [es ! i]"
    using i by (simp add: take_Suc_conv_app_nth)
  have dr: "drop i es = es ! i # drop (Suc i) es"
    using i by (simp add: Cons_nth_drop_Suc)
  have body: "t = (if offscreen (cameraX s) (es ! i) then s\<lparr> enemies := splice i es \<rparr>
      else if touchesHero (heroX (hero s)) (heroY (hero s)) (cameraX s) (es ! i)
      then s\<lparr> enemies := splice i es,
              hero := (hero s)\<lparr> lives := lives (hero s) - 1 \<rparr>,
              gameOver := gameOver s \<or> lives (hero s) - 1 \<le> 0 \<rparr>
      else s)"
    unfolding t_def es_def by (rule enemyBody_no_letters [OF Suc.prems(1)])
  have nl: "letters t = []"
    using Suc.prems(1) by (simp add: body)
  have len: "i \<le> length (enemies t)"
    using i by (auto simp: body length_splice es_def)
  have "enemiesLoop (Suc i) s = enemiesLoop i t"
    by (simp add: t_def)
  also have "\<dots> = t\<lparr> enemies := filter (stays (heroX (hero t)) (heroY (hero t)) (cameraX t))
                       (take i (enemies t)) @ drop i (enemies t),
        hero := (hero t)\<lparr> lives := lives (hero t) -
                  int (length (filter (strikes (heroX (hero t)) (heroY (hero t)) (cameraX t))
                         (take i (enemies t)))) \<rparr>,
        gameOver := gameOver t \<or>
           (filter (strikes (heroX (hero t)) (heroY (hero t)) (cameraX t)) (take i (enemies t)) \<noteq> []
            \<and> lives (hero t) -
                  int (length (filter (strikes (heroX (hero t)) (heroY (hero t)) (cameraX t))
                         (take i (enemies t)))) \<le> 0) \<rparr>"
    by (rule Suc.IH [OF nl len])
  also have "\<dots> = s\<lparr> enemies := filter (stays (heroX (hero s)) (heroY (hero s)) (cameraX s))
                       (take (Suc i) es) @ drop (Suc i) es,
        hero := (hero s)\<lparr> lives := lives (hero s) -
                  int (length (filter (strikes (heroX (hero s)) (heroY (hero s)) (cameraX s))
                         (take (Suc i) es))) \<rparr>,
        gameOver := gameOver s \<or>
           (filter (strikes (heroX (hero s)) (heroY (hero s)) (cameraX s)) (take (Suc i) es) \<noteq> []
            \<and> lives (hero s) -
                  int (length (filter (strikes (heroX (hero s)) (heroY (hero s)) (cameraX s))
                         (take (Suc i) es))) \<le> 0) \<rparr>"
    using i
    by (simp add: body es_def [symmetric] tk take_splice drop_splice stays_def strikes_def dr
        defeat_accumulates diff_diff_eq add.commute)
  finally show ?case by (simp add: es_def)
qed

subsection \<open>One iteration of the enemy loop\<close>

lemma lettersLoop_none:
  "(\<forall>k<j. \<not> letterHits (cameraX s) (letters s ! k) enemy) \<Longrightarrow> lettersLoop j i enemy s = s"
  by (induction j) (simp_all add: Let_def letterHits_def)

lemma lettersLoop_hit:
  "k < j \<Longrightarrow> letterHits (cameraX s) (letters s ! k) enemy \<Longrightarrow>
   (\<forall>m. k < m \<and> m < j \<longrightarrow> \<not> letterHits (cameraX s) (letters s ! m) enemy) \<Longrightarrow>
   lettersLoop j i enemy s =
     s\<lparr> enemies := splice i (enemies s), letters := splice k (letters s),
        hero := (hero s)\<lparr> score := score (hero s) + 20 \<rparr> \<rparr>"
proof (induction j)
  case 0
  then show ?case by simp
next
  case (Suc j)
  show ?case
  proof (cases "k = j")
    case True
    with Suc.prems show ?thesis by (simp add: Let_def letterHits_def)
  next
    case False
    with Suc.prems have kj: "k < j" by simp
    have "\<not> letterHits (cameraX s) (letters s ! j) enemy"
      using Suc.prems(3) kj by simp
    moreover have "lettersLoop j i enemy s =
        s\<lparr> enemies := splice i (enemies s), letters := splice k (letters s),
           hero := (hero s)\<lparr> score := score (hero s) + 20 \<rparr> \<rparr>"
      using Suc.IH [OF kj Suc.prems(2)] Suc.prems(3) by simp
    ultimately show ?thesis by (simp add: Let_def letterHits_def)
  qed
qed

lemma lettersLoop_result:
  "lettersLoop j i enemy s = s \<and> (\<forall>k<j. \<not> letterHits (cameraX s) (letters s ! k) enemy)
   \<or> (\<exists>k<j. letterHits (cameraX s) (letters s ! k) enemy
          \<and> (\<forall>m. k < m \<and> m < j \<longrightarrow> \<not> letterHits (cameraX s) (letters s ! m) enemy)
          \<and> lettersLoop j i enemy s =
              s\<lparr> enemies := splice i (enemies s), letters := splice k (letters s),
                 hero := (hero s)\<lparr> score := score (hero s) + 20 \<rparr> \<rparr>)"
proof (cases "\<forall>k<j. \<not> letterHits (cameraX s) (letters s ! k) enemy")
  case True
  then show ?thesis by (simp add: lettersLoop_none)
next
  case False
  define P where "P k = (k < j \<and> letterHits (cameraX s) (letters s ! k) enemy)" for k
  from False have ex: "\<exists>k. P k" by (auto simp: P_def)
  have bnd: "\<forall>k. P k \<longrightarrow> k \<le> j" by (simp add: P_def)
  define k where "k = Max {k. P k}"
  have fin: "finite {k. P k}"
    by (rule finite_subset [of _ "{..j}"]) (auto simp: P_def)
  have ne: "{k. P k} \<noteq> {}" using ex by auto
  have Pk: "P k" using Max_in [OF fin ne] by (simp add: k_def)
  have top: "\<not> P m" if "k < m" for m
    using Max_ge [OF fin, of m] that by (auto simp: k_def)
  have "lettersLoop j i enemy s =
      s\<lparr> enemies := splice i (enemies s), letters := splice k (letters s),
         hero := (hero s)\<lparr> score := score (hero s) + 20 \<rparr> \<rparr>"
    using Pk top by (intro lettersLoop_hit) (auto simp: P_def)
  then show ?thesis using Pk top by (auto simp: P_def)
qed

lemma enemyBody_eq:
  "enemyBody i s =
     (if offscreen (cameraX s) (enemies s ! i) then s\<lparr> enemies := splice i (enemies s) \<rparr>
      else if touchesHero (heroX (hero s)) (heroY (hero s)) (cameraX s) (enemies s ! i)
      then s\<lparr> enemies := splice i (enemies s),
              hero := (hero s)\<lparr> lives := lives (hero s) - 1 \<rparr>,
              gameOver := gameOver s \<or> lives (hero s) - 1 \<le> 0 \<rparr>
      else lettersLoop (length (letters s)) i (enemies s ! i) s)"
  by (simp add: enemyBody_def Let_def offscreen_def touchesHero_def)

lemma enemyBody_cases:
  "enemyBody i s = s\<lparr> enemies := splice i (enemies s) \<rparr> \<and> offscreen (cameraX s) (enemies s ! i)
   \<or> enemyBody i s = s\<lparr> enemies := splice i (enemies s),
              hero := (hero s)\<lparr> lives := lives (hero s) - 1 \<rparr>,
              gameOver := gameOver s \<or> lives (hero s) - 1 \<le> 0 \<rparr>
      \<and> strikes (heroX (hero s)) (heroY (hero s)) (cameraX s) (enemies s ! i)
   \<or> enemyBody i s = s \<and> stays (heroX (hero s)) (heroY (hero s)) (cameraX s) (enemies s ! i)
   \<or> (\<exists>k<length (letters s). enemyBody i s =
          s\<lparr> enemies := splice i (enemies s), letters := splice k (letters s),
             hero := (hero s)\<lparr> score := score (hero s) + 20 \<rparr> \<rparr>)
      \<and> stays (heroX (hero s)) (heroY (hero s)) (cameraX s) (enemies s ! i)"
  using lettersLoop_cases [of "length (letters s)" i "enemies s ! i" s]
  by (auto simp: enemyBody_eq strikes_def stays_def)

lemma enemyBody_take:
  "i < length (enemies s) \<Longrightarrow> take i (enemies (enemyBody i s)) = take i (enemies s)"
  using enemyBody_cases [of i s] by (auto simp: take_splice)

lemma enemyBody_length:
  "i < length (enemies s) \<Longrightarrow> i \<le> length (enemies (enemyBody i s))"
  using enemyBody_cases [of i s] by (auto simp: length_splice)

lemma enemyBody_lives:
  "lives (hero (enemyBody i s)) = lives (hero s) -
     (if strikes (heroX (hero s)) (heroY (hero s)) (cameraX s) (enemies s ! i) then 1 else 0)"
  using enemyBody_cases [of i s] by (auto simp: strikes_def stays_def)

lemma enemyBody_drop:
  "i < length (enemies s) \<Longrightarrow>
   drop i (enemies (enemyBody i s)) = drop (Suc i) (enemies s)
   \<or> drop i (enemies (enemyBody i s)) = drop i (enemies s)
      \<and> stays (heroX (hero s)) (heroY (hero s)) (cameraX s) (enemies s ! i)"
  using enemyBody_cases [of i s] by (auto simp: drop_splice)

lemma enemyBody_account:
  "length (letters (enemyBody i s)) \<le> length (letters s)
   \<and> score (hero (enemyBody i s))
       = score (hero s) + 20 * (int (length (letters s)) - int (length (letters (enemyBody i s))))"
  using enemyBody_cases [of i s] by (auto simp: length_splice)

lemma enemyBody_envelopes: "envelopes (enemyBody i s) = envelopes s"
  using enemyBody_cases [of i s] by auto

subsection \<open>The whole enemy loop\<close>

lemma enemyBody_count:
  "i < length (enemies s) \<Longrightarrow>
   int (length (enemies (enemyBody i s))) =
     int (length (enemies s))
     - (if stays (heroX (hero s)) (heroY (hero s)) (cameraX s) (enemies s ! i) then 0 else 1)
     - (int (length (letters s)) - int (length (letters (enemyBody i s))))"
  using enemyBody_cases [of i s] by (auto simp: length_splice strikes_def stays_def)

lemma enemyBody_position:
  "heroX (hero (enemyBody i s)) = heroX (hero s)"
  "heroY (hero (enemyBody i s)) = heroY (hero s)"
  "cameraX (enemyBody i s) = cameraX s"
  using motion_enemyBody [of i s] by (simp_all add: motion_def)

lemma enemiesLoop_position:
  "heroX (hero (enemiesLoop i s)) = heroX (hero s)"
  "heroY (hero (enemiesLoop i s)) = heroY (hero s)"
  "cameraX (enemiesLoop i s) = cameraX s"
  using motion_enemiesLoop [of i s] by (simp_all add: motion_def)

lemma enemiesLoop_envelopes: "envelopes (enemiesLoop i s) = envelopes s"
  by (induction i arbitrary: s) (simp_all add: enemyBody_envelopes)

lemma enemiesLoop_lives:
  "i \<le> length (enemies s) \<Longrightarrow>
   lives (hero (enemiesLoop i s)) =
     lives (hero s) -
       int (length (filter (strikes (heroX (hero s)) (heroY (hero s)) (cameraX s))
              (take i (enemies s))))"
proof (induction i arbitrary: s)
  case 0
  show ?case by simp
next
  case (Suc i)
  have i: "i < length (enemies s)" using Suc.prems by simp
  have tk: "take (Suc i) (enemies s) = take i (enemies s) @ [enemies s ! i]"
    using i by (simp add: take_Suc_conv_app_nth)
  show ?case
    using Suc.IH [OF enemyBody_length [OF i]]
    by (simp add: enemyBody_position enemyBody_take [OF i] enemyBody_lives tk)
qed

lemma enemiesLoop_survivors:
  "i \<le> length (enemies s) \<Longrightarrow>
   list_all (stays (heroX (hero s)) (heroY (hero s)) (cameraX s)) (drop i (enemies s)) \<Longrightarrow>
   list_all (stays (heroX (hero s)) (heroY (hero s)) (cameraX s)) (enemies (enemiesLoop i s))"
proof (induction i arbitrary: s)
  case 0
  then show ?case by simp
next
  case (Suc i)
  have i: "i < length (enemies s)" using Suc.prems by simp
  have dr: "drop i (enemies s) = enemies s ! i # drop (Suc i) (enemies s)"
    using i by (simp add: Cons_nth_drop_Suc)
  have "list_all (stays (heroX (hero s)) (heroY (hero s)) (cameraX s))
          (drop i (enemies (enemyBody i s)))"
    using enemyBody_drop [OF i] Suc.prems(2) by (auto simp: dr)
  then show ?case
    using Suc.IH [OF enemyBody_length [OF i]] by (simp add: enemyBody_position)
qed

lemma enemiesLoop_account:
  "length (letters (enemiesLoop i s)) \<le> length (letters s)
   \<and> score (hero (enemiesLoop i s))
       = score (hero s) + 20 * (int (length (letters s)) - int (length (letters (enemiesLoop i s))))"
proof (induction i arbitrary: s)
  case 0
  show ?case by simp
next
  case (Suc i)
  show ?case
    using Suc.IH [of "enemyBody i s"] enemyBody_account [of i s] by auto
qed

lemma enemiesLoop_count:
  "i \<le> length (enemies s) \<Longrightarrow>
   int (length (enemies (enemiesLoop i s))) =
     int (length (enemies s))
     - int (length (filter (\<lambda>e. \<not> stays (heroX (hero s)) (heroY (hero s)) (cameraX s) e)
             (take i (enemies s))))
     - (int (length (letters s)) - int (length (letters (enemiesLoop i s))))"
proof (induction i arbitrary: s)
  case 0
  show ?case by simp
next
  case (Suc i)
  have i: "i < length (enemies s)" using Suc.prems by simp
  have tk: "take (Suc i) (enemies s) = take i (enemies s) @ [enemies s ! i]"
    using i by (simp add: take_Suc_conv_app_nth)
  show ?case
    using Suc.IH [OF enemyBody_length [OF i]] enemyBody_count [OF i]
    by (simp add: enemyBody_position enemyBody_take [OF i] tk)
qed

lemma enemySpawnTimer_afterSpawn:
  "enemySpawnTimer (afterSpawn cv dt r s) =
     (if ENEMY_SPAWN_BASE + enemyJitter r * 1000 < enemySpawnTimer s + dt * 1000
      then 0 else enemySpawnTimer s + dt * 1000)"
proof -
  have "enemySpawnTimer (spawnEnvelopes cv dt r t) = enemySpawnTimer t" for t
    by (simp add: spawnEnvelopes_def spawnEnvelope_def Let_def)
  moreover have "enemySpawnTimer (spawnEnemies cv dt r t) =
     (if ENEMY_SPAWN_BASE + enemyJitter r * 1000 < enemySpawnTimer t + dt * 1000
      then 0 else enemySpawnTimer t + dt * 1000)" for t
    by (simp add: spawnEnemies_def spawnEnemy_def Let_def)
  ultimately show ?thesis
    by (simp add: afterSpawn_def spawnTimers_before)
qed

lemma envelopeSpawnTimer_afterSpawn:
  "envelopeSpawnTimer (afterSpawn cv dt r s) =
     (if ENVELOPE_SPAWN_BASE + envelopeJitter r * 800 < envelopeSpawnTimer s + dt * 1000
      then 0 else envelopeSpawnTimer s + dt * 1000)"
proof -
  have "envelopeSpawnTimer (spawnEnvelopes cv dt r t) =
     (if ENVELOPE_SPAWN_BASE + envelopeJitter r * 800 < envelopeSpawnTimer t + dt * 1000
      then 0 else envelopeSpawnTimer t + dt * 1000)" for t
    by (simp add: spawnEnvelopes_def spawnEnvelope_def Let_def)
  then show ?thesis
    by (simp add: afterSpawn_def spawnTimers_before)
qed





section \<open>Whole ticks and runs\<close>

lemma enemiesLoop_letters_nil: "letters s = [] \<Longrightarrow> letters (enemiesLoop i s) = []"
  using enemiesLoop_account [of i s] by simp

lemma collisions_eq:
  "collisions cv s =
     (let s6 = enemiesLoop (length (enemies s)) s
      in s6\<lparr> envelopes := filter (stays (heroX (hero s)) (heroY (hero s)) (cameraX s))
                             (envelopes s),
             hero := (hero s6)\<lparr> score := score (hero s6) + 10 *
                       int (length (filter (strikes (heroX (hero s)) (heroY (hero s)) (cameraX s))
                              (envelopes s))) \<rparr>,
             letters := filter (in_flight cv (cameraX s)) (map advance (letters s6)) \<rparr>)"
proof -
  define s6 where "s6 = enemiesLoop (length (enemies s)) s"
  define s7 where "s7 = envelopesLoop (length (envelopes s6)) s6"
  have p6: "heroX (hero s6) = heroX (hero s)" "heroY (hero s6) = heroY (hero s)"
    "cameraX s6 = cameraX s" "envelopes s6 = envelopes s"
    by (simp_all add: s6_def enemiesLoop_position enemiesLoop_envelopes)
  have e7: "s7 = s6\<lparr> envelopes := filter (stays (heroX (hero s)) (heroY (hero s)) (cameraX s))
                             (envelopes s),
             hero := (hero s6)\<lparr> score := score (hero s6) + 10 *
                       int (length (filter (strikes (heroX (hero s)) (heroY (hero s)) (cameraX s))
                              (envelopes s))) \<rparr> \<rparr>"
    unfolding s7_def using envelopesLoop_filter [of "length (envelopes s6)" s6]
    by (simp add: p6)
  have "collisions cv s = moveLettersLoop cv (length (letters s7)) s7"
    by (simp add: collisions_def Let_def s6_def s7_def)
  also have "\<dots> = s7\<lparr> letters := filter (in_flight cv (cameraX s7)) (map advance (letters s7)) \<rparr>"
    using moveLettersLoop_filter [of "length (letters s7)" s7 cv] by simp
  finally show ?thesis
    by (simp add: e7 Let_def s6_def [symmetric] p6)
qed

lemma collisions_no_letters:
  assumes "letters s = []"
  shows "collisions cv s =
     s\<lparr> enemies := filter (stays (heroX (hero s)) (heroY (hero s)) (cameraX s)) (enemies s),
        envelopes := filter (stays (heroX (hero s)) (heroY (hero s)) (cameraX s)) (envelopes s),
        hero := (hero s)
          \<lparr> lives := lives (hero s) -
               int (length (filter (strikes (heroX (hero s)) (heroY (hero s)) (cameraX s))
                      (enemies s))),
            score := score (hero s) + 10 *
               int (length (filter (strikes (heroX (hero s)) (heroY (hero s)) (cameraX s))
                      (envelopes s))) \<rparr>,
        gameOver := gameOver s \<or>
           (filter (strikes (heroX (hero s)) (heroY (hero s)) (cameraX s)) (enemies s) \<noteq> []
            \<and> lives (hero s) -
                  int (length (filter (strikes (heroX (hero s)) (heroY (hero s)) (cameraX s))
                         (enemies s))) \<le> 0) \<rparr>"
  unfolding collisions_eq Let_def
  using enemiesLoop_no_letters [OF assms, of "length (enemies s)"]
  by (simp add: assms)

lemma collisions_no_enemies:
  assumes "enemies s = []"
  shows "collisions cv s =
     s\<lparr> envelopes := filter (stays (heroX (hero s)) (heroY (hero s)) (cameraX s)) (envelopes s),
        hero := (hero s)
          \<lparr> score := score (hero s) + 10 *
               int (length (filter (strikes (heroX (hero s)) (heroY (hero s)) (cameraX s))
                      (envelopes s))) \<rparr>,
        letters := filter (in_flight cv (cameraX s)) (map advance (letters s)) \<rparr>"
  unfolding collisions_eq Let_def by (simp add: assms)

lemma untimed_scroll: "untimed (scroll s) = scroll (untimed s)"
  by (simp add: scroll_def untimed_def)

lemma untimed_physics: "untimed (physics cv s) = physics cv (untimed s)"
  by (simp add: physics_def untimed_def Let_def)

lemma gameOver_untimed: "gameOver (untimed s) = gameOver s"
  by (simp add: untimed_def)

lemma untimed_update_silent:
  assumes "\<not> ENEMY_SPAWN_BASE + enemyJitter r * 1000 < enemySpawnTimer s + dt * 1000"
    and "\<not> ENVELOPE_SPAWN_BASE + envelopeJitter r * 800 < envelopeSpawnTimer s + dt * 1000"
  shows "untimed (update cv dt r s) = glide cv (untimed s)"
proof (cases "gameOver s")
  case True
  then show ?thesis by (simp add: update_def glide_def gameOver_untimed)
next
  case False
  have "untimed (afterSpawn cv dt r s) = physics cv (scroll (untimed s))"
    unfolding untimed_afterSpawn using assms
    by (simp add: untimed_physics untimed_scroll)
  then show ?thesis
    using False
    by (simp add: update_phases [OF False] untimed_collisions glide_def gameOver_untimed)
qed

lemma spawnTimers_update:
  "enemySpawnTimer (update cv dt r s) =
     (if gameOver s then enemySpawnTimer s
      else if ENEMY_SPAWN_BASE + enemyJitter r * 1000 < enemySpawnTimer s + dt * 1000
      then 0 else enemySpawnTimer s + dt * 1000)"
  "envelopeSpawnTimer (update cv dt r s) =
     (if gameOver s then envelopeSpawnTimer s
      else if ENVELOPE_SPAWN_BASE + envelopeJitter r * 800 < envelopeSpawnTimer s + dt * 1000
      then 0 else envelopeSpawnTimer s + dt * 1000)"
proof -
  have "clocks (update cv dt r s) = clocks (afterSpawn cv dt r s)" if "\<not> gameOver s"
    by (simp add: update_phases [OF that] clocks_collisions)
  then have "\<not> gameOver s \<Longrightarrow>
      enemySpawnTimer (update cv dt r s) = enemySpawnTimer (afterSpawn cv dt r s)
      \<and> envelopeSpawnTimer (update cv dt r s) = envelopeSpawnTimer (afterSpawn cv dt r s)"
    by (simp add: clocks_def)
  then show
    "enemySpawnTimer (update cv dt r s) =
     (if gameOver s then enemySpawnTimer s
      else if ENEMY_SPAWN_BASE + enemyJitter r * 1000 < enemySpawnTimer s + dt * 1000
      then 0 else enemySpawnTimer s + dt * 1000)"
    "envelopeSpawnTimer (update cv dt r s) =
     (if gameOver s then envelopeSpawnTimer s
      else if ENVELOPE_SPAWN_BASE + envelopeJitter r * 800 < envelopeSpawnTimer s + dt * 1000
      then 0 else envelopeSpawnTimer s + dt * 1000)"
    by (auto simp: update_def [of cv dt r s] enemySpawnTimer_afterSpawn
        envelopeSpawnTimer_afterSpawn)
qed

lemma silent_ticks:
  assumes "0 \<le> dt" and "0 \<le> enemyJitter r" and "0 \<le> envelopeJitter r"
    and "enemySpawnTimer s + real n * dt * 1000 \<le> ENEMY_SPAWN_BASE"
    and "envelopeSpawnTimer s + real n * dt * 1000 \<le> ENVELOPE_SPAWN_BASE"
  shows "untimed ((update cv dt r ^^ n) s) = (glide cv ^^ n) (untimed s)
       \<and> enemySpawnTimer ((update cv dt r ^^ n) s) \<le> enemySpawnTimer s + real n * dt * 1000
       \<and> envelopeSpawnTimer ((update cv dt r ^^ n) s) \<le> envelopeSpawnTimer s + real n * dt * 1000"
  using assms(4,5)
proof (induction n)
  case 0
  show ?case by simp
next
  case (Suc n)
  define t where "t = (update cv dt r ^^ n) s"
  have step: "real (Suc n) * dt * 1000 = real n * dt * 1000 + dt * 1000"
    by (simp add: algebra_simps)
  have d: "0 \<le> dt * 1000" using assms(1) by simp
  have pre: "enemySpawnTimer s + real n * dt * 1000 \<le> ENEMY_SPAWN_BASE"
    "envelopeSpawnTimer s + real n * dt * 1000 \<le> ENVELOPE_SPAWN_BASE"
    using Suc.prems d unfolding step by linarith+
  have ih: "untimed t = (glide cv ^^ n) (untimed s)"
    "enemySpawnTimer t \<le> enemySpawnTimer s + real n * dt * 1000"
    "envelopeSpawnTimer t \<le> envelopeSpawnTimer s + real n * dt * 1000"
    using Suc.IH [OF pre] by (simp_all add: t_def)
  have je: "0 \<le> enemyJitter r * 1000" and jv: "0 \<le> envelopeJitter r * 800"
    using assms(2,3) by simp_all
  have quiet: "\<not> ENEMY_SPAWN_BASE + enemyJitter r * 1000 < enemySpawnTimer t + dt * 1000"
    "\<not> ENVELOPE_SPAWN_BASE + envelopeJitter r * 800 < envelopeSpawnTimer t + dt * 1000"
    using ih(2,3) Suc.prems je jv unfolding step by linarith+
  have "untimed (update cv dt r t) = glide cv (untimed t)"
    by (rule untimed_update_silent [OF quiet])
  moreover have "enemySpawnTimer (update cv dt r t) \<le> enemySpawnTimer s + real (Suc n) * dt * 1000"
    using quiet(1) ih(2) d unfolding step spawnTimers_update by (simp; linarith)
  moreover have "envelopeSpawnTimer (update cv dt r t) \<le> envelopeSpawnTimer s + real (Suc n) * dt * 1000"
    using quiet(2) ih(3) d unfolding step spawnTimers_update by (simp; linarith)
  ultimately show ?case
    by (simp add: t_def [symmetric] ih(1))
qed

lemma run_append: "run cv (evs @ evs') s = run cv evs' (run cv evs s)"
  by (simp add: run_def)

lemma run_Cons: "run cv (ev # evs) s = run cv evs (step cv s ev)"
  by (simp add: run_def)

lemma run_ticks: "run cv (replicate n (Tick dt r)) s = (update cv dt r ^^ n) s"
proof (induction n)
  case 0
  show ?case by (simp add: run_def)
next
  case (Suc n)
  have "replicate (Suc n) (Tick dt r) = replicate n (Tick dt r) @ [Tick dt r]"
    by (simp add: replicate_append_same)
  then show ?case
    using Suc by (simp add: run_append) (simp add: run_def)
qed

section \<open>Three runs of the game\<close>

lemma untimed_keydown: "untimed (keydown code s) = keydown code (untimed s)"
  by (simp add: keydown_def shootLetter_def untimed_def Let_def)

lemma spawnTimers_keydown:
  "enemySpawnTimer (keydown code s) = enemySpawnTimer s"
  "envelopeSpawnTimer (keydown code s) = envelopeSpawnTimer s"
  by (simp_all add: keydown_def shootLetter_def Let_def)

lemma untimed_fields:
  "gameOver (untimed s) = gameOver s" "cameraX (untimed s) = cameraX s"
  "enemies (untimed s) = enemies s" "envelopes (untimed s) = envelopes s"
  "letters (untimed s) = letters s" "lives (hero (untimed s)) = lives (hero s)"
  "score (hero (untimed s)) = score (hero s)" "heroY (hero (untimed s)) = heroY (hero s)"
  "vy (hero (untimed s)) = vy (hero s)" "onGround (hero (untimed s)) = onGround (hero s)"
  "heroX (hero (untimed s)) = heroX (hero s)" "worldX (hero (untimed s)) = worldX (hero s)"
  by (simp_all add: untimed_def)

lemma untimed_update_spawning:
  assumes "\<not> gameOver s"
    and "ENEMY_SPAWN_BASE + enemyJitter r * 1000 < enemySpawnTimer s + dt * 1000"
    and "ENVELOPE_SPAWN_BASE + envelopeJitter r * 800 < envelopeSpawnTimer s + dt * 1000"
  shows "untimed (update cv dt r s) =
     collisions cv (spawnEnvelope cv (envelopeOffsetX r) (envelopeOffsetY r)
       (spawnEnemy cv (enemyOffset r) (physics cv (scroll (untimed s)))))"
  unfolding update_phases [OF assms(1)] untimed_collisions untimed_afterSpawn
  using assms(2,3) by (simp add: untimed_physics untimed_scroll)

text \<open>The first frame.\<close>

lemma first_frame:
  "untimed (update demo_canvas 0 steady_draws (initial demo_canvas)) = grounded 3 [] [] []"
  "enemySpawnTimer (update demo_canvas 0 steady_draws (initial demo_canvas)) = 0"
  "envelopeSpawnTimer (update demo_canvas 0 steady_draws (initial demo_canvas)) = 0"
proof -
  have i: "untimed (initial demo_canvas) = grounded 0 [] [] []"
    by (simp add: untimed_def initial_def grounded_def demo_canvas_def constants)
  have t: "enemySpawnTimer (initial demo_canvas) = 0" "envelopeSpawnTimer (initial demo_canvas) = 0"
    "\<not> gameOver (initial demo_canvas)"
    by (simp_all add: initial_def)
  have g: "glide demo_canvas (grounded 0 [] [] []) = grounded 3 [] [] []"
    by (simp add: glide_def grounded_def collisions_no_letters physics_def scroll_def Let_def
      demo_canvas_def constants)
  show "untimed (update demo_canvas 0 steady_draws (initial demo_canvas)) = grounded 3 [] [] []"
    by (simp add: untimed_update_silent t constants i g steady_draws_def)
  show "enemySpawnTimer (update demo_canvas 0 steady_draws (initial demo_canvas)) = 0"
    "envelopeSpawnTimer (update demo_canvas 0 steady_draws (initial demo_canvas)) = 0"
    by (simp_all add: spawnTimers_update t constants steady_draws_def)
qed

lemma flight_arith:
  fixes x :: real
  assumes "0 \<le> x" and "x \<le> 46"
  shows "\<not> 290 < 290 - 12 * x + x * (x + 1) / 4 + (x / 2 - 12 + 1 / 2)"
proof -
  have "(x + 1) * (x + 2) \<le> (x + 1) * 48"
    using assms by (intro mult_left_mono) auto
  then have "x * x \<le> 45 * x + 46" by (simp add: algebra_simps)
  then show ?thesis by (simp add: field_simps)
qed

lemma glide_airborne:
  "\<not> 290 < y + (v + 1 / 2) \<Longrightarrow>
   glide demo_canvas (airborne c y v) = airborne (c + 3) (y + (v + 1 / 2)) (v + 1 / 2)"
  by (simp add: glide_def airborne_def collisions_no_letters physics_def scroll_def Let_def
      demo_canvas_def constants)

lemma flight:
  "k \<le> 47 \<Longrightarrow>
   (glide demo_canvas ^^ k) (airborne c 290 (- 12)) =
     airborne (c + 3 * real k) (290 - 12 * real k + real k * (real k + 1) / 4)
       (real k / 2 - 12)"
proof (induction k)
  case 0
  show ?case by simp
next
  case (Suc k)
  have k: "0 \<le> real k" "real k \<le> 46" using Suc.prems by simp_all
  have "(glide demo_canvas ^^ Suc k) (airborne c 290 (- 12)) =
      glide demo_canvas (airborne (c + 3 * real k)
        (290 - 12 * real k + real k * (real k + 1) / 4) (real k / 2 - 12))"
    using Suc by simp
  also have "\<dots> = airborne (c + 3 * real k + 3)
      (290 - 12 * real k + real k * (real k + 1) / 4 + (real k / 2 - 12 + 1 / 2))
      (real k / 2 - 12 + 1 / 2)"
    by (rule glide_airborne) (use flight_arith [OF k] in simp)
  also have "\<dots> = airborne (c + 3 * real (Suc k))
      (290 - 12 * real (Suc k) + real (Suc k) * (real (Suc k) + 1) / 4) (real (Suc k) / 2 - 12)"
  proof -
    have a: "c + 3 * real k + 3 = c + 3 * real (Suc k)" by simp
    have b: "290 - 12 * real k + real k * (real k + 1) / 4 + (real k / 2 - 12 + 1 / 2)
        = 290 - 12 * real (Suc k) + real (Suc k) * (real (Suc k) + 1) / 4"
      by (simp add: field_simps)
    have c: "real k / 2 - 12 + 1 / 2 = real (Suc k) / 2 - 12"
      by (simp add: field_simps)
    show ?thesis by (subst b, subst c, subst a) (rule refl)
  qed
  finally show ?case .
qed

lemma jump_from_ground: "keydown ''Space'' (grounded c [] [] []) = airborne c 290 (- 12)"
  by (simp add: keydown_def grounded_def airborne_def constants)

lemma shoot_from_ground: "keydown ''KeyE'' (grounded c [] [] []) = grounded c [] [] [thrown (c + 90)]"
  by (simp add: keydown_def shootLetter_def grounded_def thrown_def constants)

lemma glide_letter:
  "x + 8 - (c + 3) \<le> 850 \<Longrightarrow>
   glide demo_canvas (grounded c [] [] [thrown x]) = grounded (c + 3) [] [] [thrown (x + 8)]"
  by (simp add: glide_def grounded_def collisions_no_enemies physics_def scroll_def Let_def
      demo_canvas_def constants thrown_def in_flight_def advance_def)

lemma letter_flight:
  "k \<le> 152 \<Longrightarrow>
   (glide demo_canvas ^^ k) (grounded 3 [] [] [thrown 93]) =
     grounded (3 + 3 * real k) [] [] [thrown (93 + 8 * real k)]"
proof (induction k)
  case 0
  show ?case by simp
next
  case (Suc k)
  have k: "real k \<le> 151" using Suc.prems by simp
  have "(glide demo_canvas ^^ Suc k) (grounded 3 [] [] [thrown 93]) =
      glide demo_canvas (grounded (3 + 3 * real k) [] [] [thrown (93 + 8 * real k)])"
    using Suc by simp
  also have "\<dots> = grounded (3 + 3 * real k + 3) [] [] [thrown (93 + 8 * real k + 8)]"
    by (rule glide_letter) (use k in simp)
  also have "\<dots> = grounded (3 + 3 * real (Suc k)) [] [] [thrown (93 + 8 * real (Suc k))]"
    by (simp add: algebra_simps)
  finally show ?case .
qed

lemma stays_tenant: "180 \<le> x - c \<Longrightarrow> stays 100 290 c (tenant x)"
  by (simp add: stays_def offscreen_def touchesHero_def rectIntersect_def tenant_def constants)

lemma stays_notice: "0 \<le> x - c + 50 \<Longrightarrow> stays 100 290 c (notice x)"
  by (simp add: stays_def offscreen_def touchesHero_def rectIntersect_def notice_def constants)

lemma strikes_tenant: "100 < x - c + 80 \<Longrightarrow> x - c < 180 \<Longrightarrow> strikes 100 290 c (tenant x)"
  by (simp add: strikes_def offscreen_def touchesHero_def rectIntersect_def tenant_def constants)

lemma filter_stays_strikes:
  "list_all (stays hx hy c) xs \<Longrightarrow> filter (stays hx hy c) xs = xs \<and> filter (strikes hx hy c) xs = []"
  by (induction xs) (auto simp: stays_def strikes_def)

lemma glide_grounded:
  assumes "list_all (stays 100 290 (c + 3)) es" and "list_all (stays 100 290 (c + 3)) vs"
  shows "glide demo_canvas (grounded c es vs []) = grounded (c + 3) es vs []"
  using filter_stays_strikes [OF assms(1)] filter_stays_strikes [OF assms(2)]
  by (simp add: glide_def grounded_def collisions_no_letters physics_def scroll_def Let_def
      demo_canvas_def constants)

lemma calm_walk:
  "(\<forall>j. 1 \<le> j \<and> j \<le> n \<longrightarrow> list_all (stays 100 290 (c + 3 * real j)) es
       \<and> list_all (stays 100 290 (c + 3 * real j)) vs) \<Longrightarrow>
   (glide demo_canvas ^^ n) (grounded c es vs []) = grounded (c + 3 * real n) es vs []"
proof (induction n)
  case 0
  show ?case by simp
next
  case (Suc n)
  have "(glide demo_canvas ^^ Suc n) (grounded c es vs []) =
      glide demo_canvas (grounded (c + 3 * real n) es vs [])"
    using Suc by simp
  also have "\<dots> = grounded (c + 3 * real n + 3) es vs []"
    using Suc.prems [rule_format, of "Suc n"]
    by (intro glide_grounded) (simp_all add: algebra_simps)
  also have "\<dots> = grounded (c + 3 * real (Suc n)) es vs []"
    by (simp add: algebra_simps)
  finally show ?case .
qed

lemma spawn_tick:
  assumes u: "untimed s = grounded c es vs []"
    and t: "enemySpawnTimer s = 0" "envelopeSpawnTimer s = 0"
    and e: "list_all (stays 100 290 (c + 3)) (es @ [tenant (c + 803 + off * 600)])"
    and v: "list_all (stays 100 290 (c + 3)) (vs @ [notice (c + 803)])"
  shows "untimed (update demo_canvas 5 (cluster_draws off) s) =
           grounded (c + 3) (es @ [tenant (c + 803 + off * 600)]) (vs @ [notice (c + 803)]) []
       \<and> enemySpawnTimer (update demo_canvas 5 (cluster_draws off) s) = 0
       \<and> envelopeSpawnTimer (update demo_canvas 5 (cluster_draws off) s) = 0"
proof -
  have g: "\<not> gameOver s"
    using untimed_fields(1) [of s] by (simp add: u grounded_def)
  have r: "enemyJitter (cluster_draws off) = 0" "envelopeJitter (cluster_draws off) = 0"
    "enemyOffset (cluster_draws off) = off" "envelopeOffsetX (cluster_draws off) = 0"
    "envelopeOffsetY (cluster_draws off) = 3 / 4"
    by (simp_all add: cluster_draws_def steady_draws_def)
  have sp: "spawnEnvelope demo_canvas 0 (3 / 4)
        (spawnEnemy demo_canvas off (physics demo_canvas (scroll (grounded c es vs []))))
      = grounded (c + 3) (es @ [tenant (c + 803 + off * 600)]) (vs @ [notice (c + 803)]) []"
    by (simp add: spawnEnvelope_def spawnEnemy_def physics_def scroll_def Let_def grounded_def
        tenant_def notice_def demo_canvas_def constants algebra_simps)
  have co: "collisions demo_canvas
        (grounded (c + 3) (es @ [tenant (c + 803 + off * 600)]) (vs @ [notice (c + 803)]) [])
      = grounded (c + 3) (es @ [tenant (c + 803 + off * 600)]) (vs @ [notice (c + 803)]) []"
    using filter_stays_strikes [OF e] filter_stays_strikes [OF v]
    by (simp add: collisions_no_letters grounded_def)
  have "untimed (update demo_canvas 5 (cluster_draws off) s) =
      collisions demo_canvas (spawnEnvelope demo_canvas 0 (3 / 4)
        (spawnEnemy demo_canvas off (physics demo_canvas (scroll (untimed s)))))"
    using untimed_update_spawning [OF g, of "cluster_draws off" 5 demo_canvas]
    by (simp add: r t constants)
  then show ?thesis
    using g by (simp add: u sp co spawnTimers_update r t constants)
qed

lemma steady_jitter: "0 \<le> enemyJitter steady_draws" "0 \<le> envelopeJitter steady_draws"
  by (simp_all add: steady_draws_def)

lemma untimed_descent_state: "untimed descent_state = airborne 141 (557 / 2) 11"
proof -
  define s where "s = keydown ''Space'' (update demo_canvas 0 steady_draws (initial demo_canvas))"
  have u: "untimed s = airborne 3 290 (- 12)"
    by (simp add: s_def untimed_keydown first_frame jump_from_ground)
  have t: "enemySpawnTimer s = 0" "envelopeSpawnTimer s = 0"
    by (simp_all add: s_def spawnTimers_keydown first_frame)
  have "descent_state = (update demo_canvas (16 / 1000) steady_draws ^^ 46) s"
    by (simp add: descent_state_def descent_events_def run_Cons run_ticks s_def)
  then have "untimed descent_state = (glide demo_canvas ^^ 46) (untimed s)"
    using silent_ticks [of "16 / 1000" steady_draws s 46 demo_canvas]
    by (simp add: steady_jitter t constants)
  also have "\<dots> = airborne (3 + 3 * real (46::nat))
      (290 - 12 * real (46::nat) + real (46::nat) * (real (46::nat) + 1) / 4)
      (real (46::nat) / 2 - 12)"
    unfolding u by (rule flight) simp
  also have "\<dots> = airborne 141 (557 / 2) 11"
    by simp
  finally show ?thesis .
qed

lemma untimed_overshoot_state: "untimed overshoot_state = grounded 432 [] [] [thrown 1237]"
proof -
  define s where "s = keydown ''KeyE'' (update demo_canvas 0 steady_draws (initial demo_canvas))"
  have u: "untimed s = grounded 3 [] [] [thrown 93]"
    by (simp add: s_def untimed_keydown first_frame shoot_from_ground)
  have t: "enemySpawnTimer s = 0" "envelopeSpawnTimer s = 0"
    by (simp_all add: s_def spawnTimers_keydown first_frame)
  have "overshoot_state = (update demo_canvas (16 / 1000) steady_draws ^^ 143) s"
    by (simp add: overshoot_state_def overshoot_events_def run_Cons run_ticks s_def)
  then have "untimed overshoot_state = (glide demo_canvas ^^ 143) (untimed s)"
    using silent_ticks [of "16 / 1000" steady_draws s 143 demo_canvas]
    by (simp add: steady_jitter t constants)
  also have "\<dots> = grounded (3 + 3 * real (143::nat)) [] [] [thrown (93 + 8 * real (143::nat))]"
    unfolding u by (rule letter_flight) simp
  also have "\<dots> = grounded 432 [] [] [thrown 1237]"
    by simp
  finally show ?thesis .
qed

lemma pileup_spawned:
  "untimed pileup_spawned =
     grounded 15 [tenant (6523 / 8), tenant (13019 / 16),
          tenant (26059 / 32), tenant 815]
       [notice 806, notice 809, notice 812, notice 815] []"
  "enemySpawnTimer pileup_spawned = 0" "envelopeSpawnTimer pileup_spawned = 0"
proof -
  define s0 where "s0 = update demo_canvas 0 steady_draws (initial demo_canvas)"
  define s1 where "s1 = update demo_canvas 5 (cluster_draws (1 / 64)) s0"
  define s2 where "s2 = update demo_canvas 5 (cluster_draws (1 / 128)) s1"
  define s3 where "s3 = update demo_canvas 5 (cluster_draws (1 / 256)) s2"
  define s4 where "s4 = update demo_canvas 5 (cluster_draws 0) s3"
  have p0: "untimed s0 = grounded 3 [] [] []" "enemySpawnTimer s0 = 0" "envelopeSpawnTimer s0 = 0"
    by (simp_all add: s0_def first_frame)
  have p1: "untimed s1 = grounded 6 [tenant (6523 / 8)] [notice 806] []
      \<and> enemySpawnTimer s1 = 0 \<and> envelopeSpawnTimer s1 = 0"
    using spawn_tick [OF p0, of "1 / 64"]
    by (simp add: s1_def stays_tenant stays_notice)
  have p2: "untimed s2 = grounded 9 [tenant (6523 / 8), tenant (13019 / 16)] [notice 806, notice 809] []
      \<and> enemySpawnTimer s2 = 0 \<and> envelopeSpawnTimer s2 = 0"
    using spawn_tick [of s1 6 "[tenant (6523 / 8)]" "[notice 806]" "1 / 128"] p1
    by (simp add: s2_def stays_tenant stays_notice)
  have p3: "untimed s3 = grounded 12 [tenant (6523 / 8), tenant (13019 / 16), tenant (26059 / 32)]
        [notice 806, notice 809, notice 812] []
      \<and> enemySpawnTimer s3 = 0 \<and> envelopeSpawnTimer s3 = 0"
    using spawn_tick [of s2 9 "[tenant (6523 / 8), tenant (13019 / 16)]"
        "[notice 806, notice 809]" "1 / 256"] p2
    by (simp add: s3_def stays_tenant stays_notice)
  have p4: "untimed s4 = grounded 15 [tenant (6523 / 8), tenant (13019 / 16),
          tenant (26059 / 32), tenant 815]
        [notice 806, notice 809, notice 812, notice 815] []
      \<and> enemySpawnTimer s4 = 0 \<and> envelopeSpawnTimer s4 = 0"
    using spawn_tick [of s3 12 "[tenant (6523 / 8), tenant (13019 / 16), tenant (26059 / 32)]"
        "[notice 806, notice 809, notice 812]" 0] p3
    by (simp add: s4_def stays_tenant stays_notice)
  have "pileup_spawned = s4"
    by (simp add: pileup_spawned_def run_def s0_def s1_def s2_def s3_def s4_def)
  then show "untimed pileup_spawned =
     grounded 15 [tenant (6523 / 8), tenant (13019 / 16),
          tenant (26059 / 32), tenant 815]
       [notice 806, notice 809, notice 812, notice 815] []"
    "enemySpawnTimer pileup_spawned = 0" "envelopeSpawnTimer pileup_spawned = 0"
    using p4 by simp_all
qed

lemma pileup_walk:
  "n \<le> 206 \<Longrightarrow>
   (glide demo_canvas ^^ n)
      (grounded 15 [tenant (6523 / 8), tenant (13019 / 16),
          tenant (26059 / 32), tenant 815]
         [notice 806, notice 809, notice 812, notice 815] [])
    = grounded (15 + 3 * real n) [tenant (6523 / 8), tenant (13019 / 16),
          tenant (26059 / 32), tenant 815]
         [notice 806, notice 809, notice 812, notice 815] []"
proof (rule calm_walk, intro allI impI)
  fix j :: nat
  assume n: "n \<le> 206" and "1 \<le> j \<and> j \<le> n"
  then have j: "real j \<le> 206" by simp
  show "list_all (stays 100 290 (15 + 3 * real j)) [tenant (6523 / 8), tenant (13019 / 16),
          tenant (26059 / 32), tenant 815]
      \<and> list_all (stays 100 290 (15 + 3 * real j)) [notice 806, notice 809, notice 812, notice 815]"
    using j by (simp add: stays_tenant stays_notice)
qed

lemma untimed_pileup_state:
  "untimed pileup_state =
     grounded 633 [tenant (6523 / 8), tenant (13019 / 16),
          tenant (26059 / 32), tenant 815]
       [notice 806, notice 809, notice 812, notice 815] []"
proof -
  have "pileup_state = (update demo_canvas (7 / 1000) steady_draws ^^ 206) pileup_spawned"
    unfolding pileup_state_def pileup_events_def pileup_spawned_def run_append run_ticks ..
  then have "untimed pileup_state = (glide demo_canvas ^^ 206) (untimed pileup_spawned)"
    using silent_ticks [of "7 / 1000" steady_draws pileup_spawned 206 demo_canvas]
    by (simp add: steady_jitter pileup_spawned constants)
  also have "\<dots> = grounded (15 + 3 * real (206::nat))
       [tenant (6523 / 8), tenant (13019 / 16),
          tenant (26059 / 32), tenant 815]
       [notice 806, notice 809, notice 812, notice 815] []"
    unfolding pileup_spawned by (rule pileup_walk) simp
  finally show ?thesis by simp
qed

lemma pileup_state_timers:
  "enemySpawnTimer pileup_state \<le> 1442" "envelopeSpawnTimer pileup_state \<le> 1442"
proof -
  have "pileup_state = (update demo_canvas (7 / 1000) steady_draws ^^ 206) pileup_spawned"
    unfolding pileup_state_def pileup_events_def pileup_spawned_def run_append run_ticks ..
  then show "enemySpawnTimer pileup_state \<le> 1442" "envelopeSpawnTimer pileup_state \<le> 1442"
    using silent_ticks [of "7 / 1000" steady_draws pileup_spawned 206 demo_canvas]
    by (simp_all add: steady_jitter pileup_spawned constants)
qed

lemma pileup_strike:
  "glide demo_canvas
     (grounded 633 [tenant (6523 / 8), tenant (13019 / 16),
          tenant (26059 / 32), tenant 815]
       [notice 806, notice 809, notice 812, notice 815] [])
   = (grounded 636 [] [notice 806, notice 809, notice 812, notice 815] [])
       \<lparr> hero := (hero (grounded 636 [] [] []))\<lparr> lives := - 1 \<rparr>, gameOver := True \<rparr>"
proof -
  have a: "strikes 100 290 636 (tenant x)" "\<not> stays 100 290 636 (tenant x)"
    if "813 < x" and "x < 816" for x
    using that
    by (simp_all add: strikes_def stays_def offscreen_def touchesHero_def rectIntersect_def
        tenant_def constants)
  have b: "list_all (stays 100 290 636) [notice 806, notice 809, notice 812, notice 815]"
    by (simp add: stays_notice)
  show ?thesis
    using filter_stays_strikes [OF b]
    by (simp add: glide_def grounded_def collisions_no_letters physics_def scroll_def Let_def
        demo_canvas_def constants a)
qed

lemma pileup_outcome:
  "untimed (update demo_canvas (7 / 1000) steady_draws pileup_state)
   = (grounded 636 [] [notice 806, notice 809, notice 812, notice 815] [])
       \<lparr> hero := (hero (grounded 636 [] [] []))\<lparr> lives := - 1 \<rparr>, gameOver := True \<rparr>"
proof -
  have "untimed (update demo_canvas (7 / 1000) steady_draws pileup_state)
      = glide demo_canvas (untimed pileup_state)"
    using pileup_state_timers
    by (intro untimed_update_silent) (simp_all add: steady_draws_def constants)
  then show ?thesis
    by (simp add: untimed_pileup_state pileup_strike)
qed

lemma defeated_game_over: "gameOver defeated_game"
proof -
  have d: "defeated_game = update demo_canvas (7 / 1000) steady_draws pileup_state"
    unfolding defeated_game_def pileup_state_def run_append by (simp add: run_def)
  have "gameOver (untimed (update demo_canvas (7 / 1000) steady_draws pileup_state))"
    by (simp add: pileup_outcome)
  then show ?thesis
    unfolding d by (simp add: untimed_fields)
qed

section \<open>Score, lives and height over a run\<close>

lemma draws_ok_samples:
  "draws_ok steady_draws" "0 \<le> off \<Longrightarrow> off < 1 \<Longrightarrow> draws_ok (cluster_draws off)"
  by (simp_all add: draws_ok_def unit_draw_def steady_draws_def cluster_draws_def)

lemma descent_plausible: "list_all plausible descent_events"
  by (simp add: descent_events_def list_all_iff draws_ok_samples)

lemma overshoot_plausible: "list_all plausible overshoot_events"
  by (simp add: overshoot_events_def list_all_iff draws_ok_samples)

lemma pileup_plausible: "list_all plausible pileup_events"
  by (simp add: pileup_events_def list_all_iff draws_ok_samples)

lemma envelopeBody_length:
  "i < length (envelopes s) \<Longrightarrow> i \<le> length (envelopes (envelopeBody i s))"
  by (auto simp: envelopeBody_eq length_splice)

lemma letterBody_length:
  "i < length (letters s) \<Longrightarrow> i \<le> length (letters (letterBody cv i s))"
  by (auto simp: letterBody_def Let_def length_splice)

lemma tally_before:
  "lives (hero (animate dt (physics cv (scroll s)))) = lives (hero s)"
  "score (hero (animate dt (physics cv (scroll s)))) = score (hero s)"
  by (simp_all add: animate_def physics_def scroll_def Let_def)

lemma hero_spawn:
  "hero (spawnEnemies cv dt r s) = hero s" "hero (spawnEnvelopes cv dt r s) = hero s"
  by (simp_all add: spawnEnemies_def spawnEnvelopes_def spawnEnemy_def spawnEnvelope_def Let_def)

lemma tally_afterSpawn:
  "lives (hero (afterSpawn cv dt r s)) = lives (hero s)"
  "score (hero (afterSpawn cv dt r s)) = score (hero s)"
  by (simp_all add: afterSpawn_def hero_spawn tally_before)

lemma score_collisions: "score (hero s) \<le> score (hero (collisions cv s))"
  using enemiesLoop_account [of "length (enemies s)" s]
  by (simp add: collisions_eq Let_def)

lemma score_update: "score (hero s) \<le> score (hero (update cv dt r s))"
proof (cases "gameOver s")
  case True
  then show ?thesis by (simp add: update_def)
next
  case False
  show ?thesis
    using score_collisions [of "afterSpawn cv dt r s" cv]
    by (simp add: update_phases [OF False] tally_afterSpawn)
qed

lemma score_keydown: "score (hero (keydown code s)) = score (hero s)"
  by (simp add: keydown_def shootLetter_def Let_def)

lemma score_never_negative: "0 \<le> score (hero (run cv evs (initial cv)))"
proof (induction evs rule: rev_induct)
  case Nil
  show ?case by (simp add: run_def initial_def)
next
  case (snoc ev evs)
  have "score (hero (run cv evs (initial cv))) \<le> score (hero (step cv (run cv evs (initial cv)) ev))"
    by (cases ev) (simp_all add: score_update score_keydown)
  then show ?case
    using snoc by (simp add: run_def)
qed

lemma lives_collisions:
  "lives (hero (collisions cv s)) =
     lives (hero s) -
       int (length (filter (strikes (heroX (hero s)) (heroY (hero s)) (cameraX s))
              (enemies s)))"
  using enemiesLoop_lives [of "length (enemies s)" s]
  by (simp add: collisions_eq Let_def)

lemma lives_update:
  "\<not> gameOver s \<Longrightarrow>
   lives (hero (update cv dt r s)) =
     lives (hero s) -
       int (length (filter
              (strikes (heroX (hero (update cv dt r s))) (heroY (hero (update cv dt r s)))
                 (cameraX (update cv dt r s)))
              (enemies (afterSpawn cv dt r s))))"
proof -
  assume g: "\<not> gameOver s"
  have m: "motion (update cv dt r s) = motion (afterSpawn cv dt r s)"
    by (simp add: update_phases [OF g] motion_collisions)
  then have p: "heroX (hero (update cv dt r s)) = heroX (hero (afterSpawn cv dt r s))"
    "heroY (hero (update cv dt r s)) = heroY (hero (afterSpawn cv dt r s))"
    "cameraX (update cv dt r s) = cameraX (afterSpawn cv dt r s)"
    by (simp_all add: motion_def)
  show ?thesis
    unfolding p by (simp add: update_phases [OF g] lives_collisions tally_afterSpawn)
qed

lemma heroY_keydown: "heroY (hero (keydown code s)) = heroY (hero s)"
  by (simp add: keydown_def shootLetter_def Let_def)

lemma heroY_update:
  "heroY (hero s) \<le> canvasHeight cv - GROUND_HEIGHT - HERO_SIZE \<Longrightarrow>
   heroY (hero (update cv dt r s)) \<le> canvasHeight cv - GROUND_HEIGHT - HERO_SIZE"
proof (cases "gameOver s")
  case True
  assume "heroY (hero s) \<le> canvasHeight cv - GROUND_HEIGHT - HERO_SIZE"
  with True show ?thesis by (simp add: update_def)
next
  case False
  show ?thesis
    using motion_update [OF False, of cv dt r]
    by (simp add: motion_def physics_def scroll_def Let_def)
qed

lemma heroY_run:
  "heroY (hero (run cv evs (initial cv))) \<le> canvasHeight cv - GROUND_HEIGHT - HERO_SIZE"
proof (induction evs rule: rev_induct)
  case Nil
  show ?case by (simp add: run_def initial_def)
next
  case (snoc ev evs)
  have "heroY (hero (step cv (run cv evs (initial cv)) ev))
      \<le> canvasHeight cv - GROUND_HEIGHT - HERO_SIZE"
    using snoc by (cases ev) (simp_all add: heroY_update heroY_keydown)
  then show ?case by (simp add: run_def)
qed

section \<open>Geometry: the overlap test\<close>



section \<open>Camera and hero\<close>

text \<open>
  Claim C5. In every tick that starts while the game is not over, the camera offset and
  the hero's world position both grow by \<open>WORLD_SPEED\<close>; their difference is unchanged, and
  the hero's screen position \<open>heroX\<close> is not touched.
\<close>

theorem camera_hero_lockstep:
  assumes "\<not> gameOver s"
  shows "cameraX (update cv dt r s) = cameraX s + WORLD_SPEED
       \<and> worldX (hero (update cv dt r s)) = worldX (hero s) + WORLD_SPEED
       \<and> worldX (hero (update cv dt r s)) - cameraX (update cv dt r s)
           = worldX (hero s) - cameraX s
       \<and> heroX (hero (update cv dt r s)) = heroX (hero s)"
  using motion_update [OF assms, of cv dt r]
  by (simp add: motion_def physics_def scroll_def Let_def)

theorem camera_hero_lockstep_witness:
  "cameraX (update demo_canvas (16 / 1000) steady_draws (initial demo_canvas)) = 3
   \<and> worldX (hero (update demo_canvas (16 / 1000) steady_draws (initial demo_canvas))) = 3
   \<and> heroX (hero (update demo_canvas (16 / 1000) steady_draws (initial demo_canvas))) = 100"
  using camera_hero_lockstep
    [where s = "initial demo_canvas" and cv = demo_canvas and dt = "16 / 1000"
       and r = steady_draws]
  by (simp add: initial_def WORLD_SPEED_def)

section \<open>Game over\<close>

text \<open>
  Claim C7. Once \<open>gameOver\<close> is set, ticks change nothing: whatever the elapsed times and
  the random draws of any number of later ticks, the state stays the same in every field
  (camera, hero, the three lists, the spawn accumulators, score and lives).
\<close>

theorem defeated_is_terminal:
  assumes "gameOver s"
  shows "foldl (\<lambda>t (dt, r). update cv dt r t) s ticks = s"
  using assms by (induction ticks) (auto simp: update_def)

theorem defeated_is_terminal_witness:
  "gameOver defeated_game
   \<and> foldl (\<lambda>t (dt, r). update demo_canvas dt r t) defeated_game
        [(16 / 1000, steady_draws), (5, steady_draws), (7 / 1000, steady_draws)]
       = defeated_game"
proof -
  have g: "gameOver defeated_game" by (rule defeated_game_over)
  show ?thesis
    using g defeated_is_terminal [OF g, of demo_canvas
        "[(16 / 1000, steady_draws), (5, steady_draws), (7 / 1000, steady_draws)]"]
    by simp
qed

section \<open>Spawning\<close>



section \<open>Elapsed time\<close>

text \<open>
  Claim C10. Two ticks from the same state with the same random draws but different elapsed
  times end with the same camera offset and the same hero motion (world position, screen
  position, vertical position, vertical velocity, ground flag). Elapsed time acts through
  the clocks only: when both elapsed times lead to the same two spawn decisions, the two
  resulting states are equal in every field but the four clocks (animation timer and
  phase, the two spawn accumulators).
\<close>

theorem elapsed_time_noninterference:
  "motion (update cv dt1 r s) = motion (update cv dt2 r s)
   \<and> ((ENEMY_SPAWN_BASE + enemyJitter r * 1000 < enemySpawnTimer s + dt1 * 1000)
        = (ENEMY_SPAWN_BASE + enemyJitter r * 1000 < enemySpawnTimer s + dt2 * 1000)
      \<and> (ENVELOPE_SPAWN_BASE + envelopeJitter r * 800 < envelopeSpawnTimer s + dt1 * 1000)
        = (ENVELOPE_SPAWN_BASE + envelopeJitter r * 800 < envelopeSpawnTimer s + dt2 * 1000)
      \<longrightarrow> untimed (update cv dt1 r s) = untimed (update cv dt2 r s))"
proof (cases "gameOver s")
  case True
  then show ?thesis by (simp add: update_def)
next
  case False
  have m: "motion (update cv dt1 r s) = motion (update cv dt2 r s)"
    by (simp add: motion_update [OF False])
  have "untimed (afterSpawn cv dt1 r s) = untimed (afterSpawn cv dt2 r s)"
    if "(ENEMY_SPAWN_BASE + enemyJitter r * 1000 < enemySpawnTimer s + dt1 * 1000)
        = (ENEMY_SPAWN_BASE + enemyJitter r * 1000 < enemySpawnTimer s + dt2 * 1000)"
      and "(ENVELOPE_SPAWN_BASE + envelopeJitter r * 800 < envelopeSpawnTimer s + dt1 * 1000)
        = (ENVELOPE_SPAWN_BASE + envelopeJitter r * 800 < envelopeSpawnTimer s + dt2 * 1000)"
    unfolding untimed_afterSpawn using that by simp
  then show ?thesis
    using m by (simp add: update_phases [OF False] untimed_collisions)
qed

text \<open>A frame of 7 ms and a frame of 16 ms from the initial state: neither spawns.\<close>

theorem elapsed_time_noninterference_witness:
  "motion (update demo_canvas (7 / 1000) steady_draws (initial demo_canvas))
     = motion (update demo_canvas (16 / 1000) steady_draws (initial demo_canvas))
   \<and> untimed (update demo_canvas (7 / 1000) steady_draws (initial demo_canvas))
     = untimed (update demo_canvas (16 / 1000) steady_draws (initial demo_canvas))"
proof -
  have i: "enemySpawnTimer (initial demo_canvas) = 0"
    "envelopeSpawnTimer (initial demo_canvas) = 0"
    by (simp_all add: initial_def)
  show ?thesis
    using elapsed_time_noninterference
      [where s = "initial demo_canvas" and cv = demo_canvas and r = steady_draws
         and ?dt1.0 = "7 / 1000" and ?dt2.0 = "16 / 1000"]
    by (simp add: i constants steady_draws_def)
qed

section \<open>The entity lists after a tick\<close>

lemma list_all_stays_onscreen:
  "list_all (stays hx hy c) xs \<Longrightarrow> list_all (\<lambda>e. \<not> offscreen c e) xs"
  by (induction xs) (auto simp: stays_def)

lemma in_play_collisions: "in_play cv (collisions cv s)"
proof -
  define s6 where "s6 = enemiesLoop (length (enemies s)) s"
  have "list_all (stays (heroX (hero s)) (heroY (hero s)) (cameraX s)) (enemies s6)"
    unfolding s6_def by (rule enemiesLoop_survivors) simp_all
  then have e: "list_all (\<lambda>e. \<not> offscreen (cameraX s) e) (enemies s6)"
    by (rule list_all_stays_onscreen)
  have v: "list_all (\<lambda>e. \<not> offscreen (cameraX s) e)
      (filter (stays (heroX (hero s)) (heroY (hero s)) (cameraX s)) (envelopes s))"
    by (rule list_all_stays_onscreen [of "heroX (hero s)" "heroY (hero s)"])
       (simp add: list_all_iff)
  have l: "list_all (in_flight cv (cameraX s))
      (filter (in_flight cv (cameraX s)) (map advance (letters s6)))"
    by (simp add: list_all_iff)
  have c: "cameraX s6 = cameraX s"
    by (simp add: s6_def enemiesLoop_position)
  show ?thesis
    unfolding in_play_def collisions_eq Let_def s6_def [symmetric]
    using e v l by (simp add: c)
qed

lemma in_play_update: "\<not> gameOver s \<Longrightarrow> in_play cv (update cv dt r s)"
  by (simp add: update_phases in_play_collisions)

lemma keydown_gameOver:
  "gameOver s \<Longrightarrow> keydown code s = s"
  "\<not> gameOver s \<Longrightarrow> \<not> gameOver (keydown code s)"
  by (simp_all add: keydown_def shootLetter_def Let_def)

lemma in_play_once_over:
  "gameOver (run cv evs (initial cv)) \<Longrightarrow> in_play cv (run cv evs (initial cv))"
proof (induction evs rule: rev_induct)
  case Nil
  then show ?case by (simp add: run_def initial_def)
next
  case (snoc ev evs)
  define s where "s = run cv evs (initial cv)"
  have r: "run cv (evs @ [ev]) (initial cv) = step cv s ev"
    by (simp add: run_def s_def)
  have over: "gameOver (step cv s ev)"
    using snoc.prems by (simp add: r)
  have "in_play cv (step cv s ev)"
  proof (cases "gameOver s")
    case True
    then have "step cv s ev = s"
      by (cases ev) (simp_all add: update_def keydown_gameOver)
    then show ?thesis
      using snoc.IH True by (simp add: s_def)
  next
    case False
    show ?thesis
    proof (cases ev)
      case (Tick dt d)
      then show ?thesis using False by (simp add: in_play_update)
    next
      case (KeyDown code)
      then show ?thesis
        using False over keydown_gameOver(2) [of s code] by simp
    qed
  qed
  then show ?case by (simp add: r)
qed

text \<open>
  Claim C3, as the code has it. After every completed tick of any run from page load (any
  key presses, any elapsed times, any random draws), no enemy and no envelope in the lists
  has left the screen on the left (none has screen-x + width below 0), and no letter in the
  list is more than 50 pixels past the right edge of the canvas (none has screen-x above
  canvas width + 50).
\<close>

theorem entities_in_play_after_tick:
  "in_play cv (run cv (evs @ [Tick dt r]) (initial cv))"
proof (cases "gameOver (run cv evs (initial cv))")
  case True
  then have "run cv (evs @ [Tick dt r]) (initial cv) = run cv evs (initial cv)"
    by (simp add: run_append run_def update_def)
  then show ?thesis
    using in_play_once_over [OF True] by simp
next
  case False
  have "run cv (evs @ [Tick dt r]) (initial cv) = update cv dt r (run cv evs (initial cv))"
    by (simp add: run_append) (simp add: run_def)
  then show ?thesis
    using in_play_update [OF False] by simp
qed

text \<open>After the run with the thrown letter, the letter is in the list and is in flight.\<close>

theorem entities_in_play_after_tick_witness:
  "in_play demo_canvas overshoot_state \<and> letters overshoot_state = [thrown 1237]
   \<and> in_flight demo_canvas (cameraX overshoot_state) (thrown 1237)"
proof -
  have n: "(143::nat) = Suc 142" by simp
  have e: "overshoot_events =
      (Tick 0 steady_draws # KeyDown ''KeyE'' # replicate 142 (Tick (16 / 1000) steady_draws))
      @ [Tick (16 / 1000) steady_draws]"
    unfolding overshoot_events_def
    by (simp only: n replicate_Suc replicate_append_same append_Cons)
  have l: "letters overshoot_state = [thrown 1237]"
    using untimed_fields(5) [of overshoot_state]
    by (simp add: untimed_overshoot_state grounded_def)
  have "in_play demo_canvas overshoot_state"
    unfolding overshoot_state_def e by (rule entities_in_play_after_tick)
  then show ?thesis
    using l by (simp add: in_play_def)
qed

text \<open>
  The claim as it was stated asks that no retained letter lies fully past the right edge.
  The run with the thrown letter ends with a tick, and the letter is still in the list at
  screen-x 1237 - 432 = 805, to the right of the 800 pixel wide canvas: line 280 removes a
  letter only beyond a margin of 50 pixels.
\<close>

theorem letter_past_right_edge_counterexample:
  "list_all plausible overshoot_events
   \<and> letters overshoot_state = [thrown 1237] \<and> cameraX overshoot_state = 432
   \<and> canvasWidth demo_canvas < objX (thrown 1237) - 432"
  using untimed_fields(2,5) [of overshoot_state]
  by (simp add: untimed_overshoot_state grounded_def thrown_def demo_canvas_def
      overshoot_plausible)

section \<open>Enemy against hero and letters\<close>




text \<open>
  Claim C9. A letter that hits an enemy is removed from the list together with that enemy
  (line 252) and the inner loop stops (line 255), so the iterations for the remaining
  enemies run over a list that no longer holds it. For any number \<open>i\<close> of iterations of
  the enemy loop: the score grows by 20 for each letter that has gone, and the enemies that
  have gone are those that left the screen or touched the hero, plus exactly one for each
  letter that has gone. For a single enemy that neither left the screen nor touches the
  hero: either no letter overlaps it and nothing changes, or one overlapping letter and the
  enemy are removed and 20 points are added.
\<close>

theorem one_hostile_per_projectile:
  assumes "i \<le> length (enemies s)"
  shows "length (letters (enemiesLoop i s)) \<le> length (letters s)
       \<and> score (hero (enemiesLoop i s))
           = score (hero s)
             + 20 * (int (length (letters s)) - int (length (letters (enemiesLoop i s))))
       \<and> int (length (enemies (enemiesLoop i s)))
           = int (length (enemies s))
             - int (length (filter
                      (\<lambda>e. \<not> stays (heroX (hero s)) (heroY (hero s)) (cameraX s) e)
                      (take i (enemies s))))
             - (int (length (letters s)) - int (length (letters (enemiesLoop i s))))
       \<and> (\<forall>j<length (enemies s).
            stays (heroX (hero s)) (heroY (hero s)) (cameraX s) (enemies s ! j) \<longrightarrow>
              enemyBody j s = s
              \<and> (\<forall>k<length (letters s). \<not> letterHits (cameraX s) (letters s ! k) (enemies s ! j))
            \<or> (\<exists>k<length (letters s).
                  letterHits (cameraX s) (letters s ! k) (enemies s ! j)
                  \<and> enemyBody j s =
                      s\<lparr> enemies := splice j (enemies s), letters := splice k (letters s),
                         hero := (hero s)\<lparr> score := score (hero s) + 20 \<rparr> \<rparr>))"
proof -
  have body: "enemyBody j s = s
              \<and> (\<forall>k<length (letters s). \<not> letterHits (cameraX s) (letters s ! k) (enemies s ! j))
            \<or> (\<exists>k<length (letters s).
                  letterHits (cameraX s) (letters s ! k) (enemies s ! j)
                  \<and> enemyBody j s =
                      s\<lparr> enemies := splice j (enemies s), letters := splice k (letters s),
                         hero := (hero s)\<lparr> score := score (hero s) + 20 \<rparr> \<rparr>)"
    if "stays (heroX (hero s)) (heroY (hero s)) (cameraX s) (enemies s ! j)" for j
  proof -
    have "enemyBody j s = lettersLoop (length (letters s)) j (enemies s ! j) s"
      using that by (simp add: enemyBody_eq stays_def)
    then show ?thesis
      using lettersLoop_result [of "length (letters s)" j "enemies s ! j" s] by auto
  qed
  show ?thesis
    using enemiesLoop_account [of i s] enemiesLoop_count [OF assms] body by blast
qed

lemma crossfire_loop:
  "enemiesLoop 2 crossfire = grounded 0 [tenant 290] [] []
      \<lparr> hero := (hero (grounded 0 [] [] []))\<lparr> score := 20 \<rparr> \<rparr>"
proof -
  have two: "(2::nat) = Suc (Suc 0)" by simp
  have h: "letterHits 0 (thrown 300) (tenant 310)"
    by (simp add: letterHits_def rectIntersect_def thrown_def tenant_def)
  have st: "stays 100 290 0 (tenant 310)" "stays 100 290 0 (tenant 290)"
    by (simp_all add: stays_tenant)
  have b1: "enemyBody (Suc 0) crossfire = grounded 0 [tenant 290] [] []
      \<lparr> hero := (hero (grounded 0 [] [] []))\<lparr> score := 20 \<rparr> \<rparr>"
    using h st
    by (simp add: enemyBody_eq crossfire_def grounded_def stays_def Let_def splice_def
        letterHits_def)
  have b0: "enemyBody 0 (grounded 0 [tenant 290] [] []
      \<lparr> hero := (hero (grounded 0 [] [] []))\<lparr> score := 20 \<rparr> \<rparr>)
     = grounded 0 [tenant 290] [] []
      \<lparr> hero := (hero (grounded 0 [] [] []))\<lparr> score := 20 \<rparr> \<rparr>"
    using st by (simp add: enemyBody_eq grounded_def stays_def)
  show ?thesis
    unfolding two by (simp add: b1 b0)
qed

text \<open>One letter overlaps two enemies; the loop removes the letter and one of them.\<close>

theorem one_hostile_per_projectile_witness:
  "letterHits (cameraX crossfire) (thrown 300) (tenant 290)
   \<and> letterHits (cameraX crossfire) (thrown 300) (tenant 310)
   \<and> enemies crossfire = [tenant 290, tenant 310] \<and> letters crossfire = [thrown 300]
   \<and> enemies (enemiesLoop 2 crossfire) = [tenant 290]
   \<and> letters (enemiesLoop 2 crossfire) = []
   \<and> score (hero (enemiesLoop 2 crossfire)) = score (hero crossfire) + 20"
proof -
  have c: "cameraX crossfire = 0" "enemies crossfire = [tenant 290, tenant 310]"
    "letters crossfire = [thrown 300]"
    by (simp_all add: crossfire_def grounded_def)
  have h: "letterHits 0 (thrown 300) (tenant 290)" "letterHits 0 (thrown 300) (tenant 310)"
    by (simp_all add: letterHits_def rectIntersect_def thrown_def tenant_def)
  have l: "letters (enemiesLoop 2 crossfire) = []" "enemies (enemiesLoop 2 crossfire) = [tenant 290]"
    by (simp_all add: crossfire_loop grounded_def)
  show ?thesis
    using one_hostile_per_projectile [of 2 crossfire] h
    by (simp add: c l)
qed

section \<open>Lives\<close>

text \<open>
  Claim C1 says that lives never drop below zero, also when several enemies overlap the
  hero in one tick. The loop of lines 226--258 takes a life for every such enemy and goes
  on after it has set \<open>gameOver\<close>. In the run \<open>pileup_events\<close> from page load the hero has
  three lives and four enemies arrive together; after the next tick the lives counter
  is -1.
\<close>

theorem lives_fall_below_zero:
  "list_all plausible pileup_events
   \<and> lives (hero pileup_state) = 3 \<and> \<not> gameOver pileup_state
   \<and> enemies pileup_state = [tenant (6523 / 8), tenant (13019 / 16),
          tenant (26059 / 32), tenant 815]
   \<and> letters pileup_state = []
   \<and> cameraX pileup_state = 633
   \<and> heroX (hero pileup_state) = 100 \<and> heroY (hero pileup_state) = 290
   \<and> vy (hero pileup_state) = 0
   \<and> lives (hero (update demo_canvas (7 / 1000) steady_draws pileup_state)) = - 1
   \<and> gameOver (update demo_canvas (7 / 1000) steady_draws pileup_state)"
  using untimed_fields [of pileup_state]
    untimed_fields(1,6) [of "update demo_canvas (7 / 1000) steady_draws pileup_state"]
  by (simp add: untimed_pileup_state pileup_outcome grounded_def pileup_plausible)

section \<open>Landing\<close>

text \<open>
  Claim C2, as the code has it. In a tick that starts while the game is not over, let \<open>y1\<close>
  be the hero's vertical position after gravity and velocity are applied. If \<open>y1\<close> is
  below the ground line (larger than \<open>groundY\<close>), the position becomes \<open>groundY\<close>, the
  velocity becomes 0 and the ground flag is set. If \<open>y1\<close> is on or above the ground line
  (\<open>y1 \<le> groundY\<close>), the position is \<open>y1\<close>, the velocity keeps its integrated value and the
  ground flag is unchanged. In both cases the position after the tick does not exceed the
  ground line; and in every state of every run from page load the position does not
  exceed the ground line.
\<close>

theorem ground_clamp:
  "(\<not> gameOver s \<longrightarrow>
     (let y1 = heroY (hero s) + (vy (hero s) + GRAVITY);
          groundY = canvasHeight cv - GROUND_HEIGHT - HERO_SIZE;
          h = hero (update cv dt r s)
      in (groundY < y1 \<longrightarrow> heroY h = groundY \<and> vy h = 0 \<and> onGround h)
       \<and> (y1 \<le> groundY \<longrightarrow>
            heroY h = y1 \<and> vy h = vy (hero s) + GRAVITY \<and> onGround h = onGround (hero s))
       \<and> heroY h \<le> groundY))
   \<and> heroY (hero (run cv evs (initial cv))) \<le> canvasHeight cv - GROUND_HEIGHT - HERO_SIZE"
proof (intro conjI impI)
  assume g: "\<not> gameOver s"
  show "let y1 = heroY (hero s) + (vy (hero s) + GRAVITY);
          groundY = canvasHeight cv - GROUND_HEIGHT - HERO_SIZE;
          h = hero (update cv dt r s)
      in (groundY < y1 \<longrightarrow> heroY h = groundY \<and> vy h = 0 \<and> onGround h)
       \<and> (y1 \<le> groundY \<longrightarrow>
            heroY h = y1 \<and> vy h = vy (hero s) + GRAVITY \<and> onGround h = onGround (hero s))
       \<and> heroY h \<le> groundY"
    using motion_update [OF g, of cv dt r]
    by (simp add: motion_def physics_def scroll_def Let_def)
next
  show "heroY (hero (run cv evs (initial cv))) \<le> canvasHeight cv - GROUND_HEIGHT - HERO_SIZE"
    by (rule heroY_run)
qed

text \<open>A tick at rest on the ground, the first tick of a jump, and the run with the jump.\<close>

theorem ground_clamp_witness:
  "heroY (hero (update demo_canvas (16 / 1000) steady_draws (initial demo_canvas))) = 290
   \<and> vy (hero (update demo_canvas (16 / 1000) steady_draws (initial demo_canvas))) = 0
   \<and> onGround (hero (update demo_canvas (16 / 1000) steady_draws (initial demo_canvas)))
   \<and> heroY (hero (update demo_canvas (16 / 1000) steady_draws
        (keydown ''Space'' (initial demo_canvas)))) = 557 / 2
   \<and> vy (hero (update demo_canvas (16 / 1000) steady_draws
        (keydown ''Space'' (initial demo_canvas)))) = - 23 / 2
   \<and> \<not> onGround (hero (update demo_canvas (16 / 1000) steady_draws
        (keydown ''Space'' (initial demo_canvas))))
   \<and> heroY (hero descent_state) \<le> 290"
proof -
  have i: "\<not> gameOver (initial demo_canvas)" "heroY (hero (initial demo_canvas)) = 290"
    "vy (hero (initial demo_canvas)) = 0"
    by (simp_all add: initial_def demo_canvas_def constants)
  have j: "\<not> gameOver (keydown ''Space'' (initial demo_canvas))"
    "heroY (hero (keydown ''Space'' (initial demo_canvas))) = 290"
    "vy (hero (keydown ''Space'' (initial demo_canvas))) = - 12"
    "\<not> onGround (hero (keydown ''Space'' (initial demo_canvas)))"
    by (simp_all add: keydown_def initial_def demo_canvas_def constants)
  have c: "canvasHeight demo_canvas = 450" by (simp add: demo_canvas_def)
  show ?thesis
    using ground_clamp [of "initial demo_canvas" demo_canvas "16 / 1000" steady_draws
        descent_events]
      ground_clamp [of "keydown ''Space'' (initial demo_canvas)" demo_canvas "16 / 1000"
        steady_draws "[]"]
    by (simp add: Let_def i j c constants descent_state_def)
qed

text \<open>
  The claim as it was stated also asks for velocity 0 and the ground flag when the
  integrated position equals the ground line. 47 frames after a jump the hero is exactly
  on the line: the test of line 198 is \<^verbatim>\<open>hero.y > groundY\<close>, so the velocity stays 11.5 and
  the ground flag stays off for that tick.
\<close>

theorem landing_on_the_line_counterexample:
  "list_all plausible descent_events \<and> \<not> gameOver descent_state
   \<and> heroY (hero descent_state) = 557 / 2 \<and> vy (hero descent_state) = 11
   \<and> heroY (hero descent_state) + (vy (hero descent_state) + GRAVITY)
       = canvasHeight demo_canvas - GROUND_HEIGHT - HERO_SIZE
   \<and> heroY (hero (update demo_canvas (16 / 1000) steady_draws descent_state))
       = canvasHeight demo_canvas - GROUND_HEIGHT - HERO_SIZE
   \<and> vy (hero (update demo_canvas (16 / 1000) steady_draws descent_state)) = 23 / 2
   \<and> \<not> onGround (hero (update demo_canvas (16 / 1000) steady_draws descent_state))"
proof -
  have d: "\<not> gameOver descent_state" "heroY (hero descent_state) = 557 / 2"
    "vy (hero descent_state) = 11" "\<not> onGround (hero descent_state)"
    using untimed_fields(1,8,9,10) [of descent_state]
    by (simp_all add: untimed_descent_state airborne_def)
  show ?thesis
    using motion_update [OF d(1), of demo_canvas "16 / 1000" steady_draws]
    by (simp add: motion_def physics_def scroll_def Let_def d demo_canvas_def constants
        descent_plausible)
qed

end
